theory Spec2Isabelle
  imports Complex_Main
begin

section \<open>Data model of \<open>app.py\<close>\<close>

text \<open>
  The program keeps, per session id, a Python list of dict objects
  \<open>{"role": ..., "content": ...}\<close>. The dicts are mutable objects that are shared between
  the stored list and the shallow copy \<open>list(session_histories.get(session_id, []))\<close>, so
  they live in an explicit object store: \<open>dicts\<close> holds every dict ever created, and a
  history is a list of indices into it. Creating a dict appends it to \<open>dicts\<close>.
  Lists are values: no list object of the program is ever reachable through two names
  that are both used afterwards.

  Strings are sequences of 8-bit code points. In a request, \<open>session_id\<close>,
  \<open>prompt\<close> and \<open>model_id\<close> are the JSON strings the wire interface declares
  (\<open>None\<close> is an absent key). \<open>system_prompt\<close> and \<open>temperature\<close> are JSON values
  of any kind, because the generator calls \<open>.strip()\<close> and \<open>float\<close> on them in
  its first lines, before it validates anything and outside its \<open>try\<close>. Binary
  floating point is not modelled: \<open>Float v\<close> stands for the float that \<open>float(v)\<close>
  returns, and it is only handed on to the collaborator.
\<close>

datatype json = JNull | JBool bool | JInt int | JReal rat | JStr string | JArray | JObject

datatype exn = AttributeError | TypeError | ValueError | OverflowError

datatype pyfloat = Float json

datatype MessageRole = SYSTEM | USER | ASSISTANT

record msg_dict =
  role :: MessageRole
  content :: string

datatype ChatMessage = ChatMessage (cm_role: MessageRole) (cm_content: string)

record store =
  session_histories :: "string \<rightharpoonup> nat list"
  dicts :: "msg_dict list"
  history_lock :: bool

text \<open>
  \<open>history_lock\<close> is \<open>True\<close> while the (non-reentrant) \<open>threading.Lock\<close> is held.
  Every operation below returns an option: \<open>None\<close> means that the call never returns,
  because it waits for a lock that its own thread holds.
\<close>

definition empty_store :: store where
  "empty_store = \<lparr>session_histories = Map.empty, dicts = [], history_lock = False\<rparr>"

definition transcript :: "store \<Rightarrow> string \<Rightarrow> msg_dict list option" where
  "transcript st session_id =
     map_option (map (\<lambda>a. dicts st ! a)) (session_histories st session_id)"

definition with_history_lock ::
  "(store \<Rightarrow> (store \<times> 'a) option) \<Rightarrow> store \<Rightarrow> (store \<times> 'a) option" where
  "with_history_lock body st =
     (if history_lock st then None
      else (case body (st\<lparr>history_lock := True\<rparr>) of
              None \<Rightarrow> None
            | Some (st', r) \<Rightarrow> Some (st'\<lparr>history_lock := False\<rparr>, r)))"

text \<open>Python truthiness of an optional string: \<open>None\<close> and \<open>""\<close> are falsy.\<close>

definition truthy :: "string option \<Rightarrow> bool" where
  "truthy x = (case x of None \<Rightarrow> False | Some s \<Rightarrow> s \<noteq> [])"

text \<open>\<open>str.isspace\<close> on the code points below 256, and \<open>str.strip()\<close>.\<close>

definition isspace :: "char \<Rightarrow> bool" where
  "isspace c = ((of_char c :: nat) \<in> {9, 10, 11, 12, 13, 28, 29, 30, 31, 32, 133, 160})"

definition strip :: "string \<Rightarrow> string" where
  "strip s = rev (dropWhile isspace (rev (dropWhile isspace s)))"

text \<open>\<open>v.strip()\<close>: only a string has the method.\<close>

definition py_strip :: "json \<Rightarrow> exn + string" where
  "py_strip v = (case v of JStr s \<Rightarrow> Inr (strip s) | _ \<Rightarrow> Inl AttributeError)"

text \<open>
  The strings that \<open>float\<close> accepts, after the language reference: surrounding
  whitespace, a sign, then \<open>inf\<close>, \<open>infinity\<close> or \<open>nan\<close> in any case, or a
  decimal number with an optional exponent; an underscore may stand between two digits.
\<close>

definition isdigit :: "char \<Rightarrow> bool" where
  "isdigit c = (48 \<le> (of_char c :: nat) \<and> (of_char c :: nat) \<le> 57)"

definition same_letter :: "char \<Rightarrow> char \<Rightarrow> bool" where
  "same_letter c l = (c = l \<or> (of_char c :: nat) + 32 = of_char l)"

definition spells :: "string \<Rightarrow> string \<Rightarrow> bool" where
  "spells s word = list_all2 same_letter s word"

fun digitpart :: "string \<Rightarrow> bool" where
  "digitpart [] = False"
| "digitpart [c] = isdigit c"
| "digitpart (c # d # r) =
     (isdigit c \<and> (if d = CHR ''_'' then digitpart r else digitpart (d # r)))"

definition unsigned :: "string \<Rightarrow> string" where
  "unsigned s = (if s \<noteq> [] \<and> (hd s = CHR ''+'' \<or> hd s = CHR ''-'') then tl s else s)"

definition pointfloat :: "string \<Rightarrow> bool" where
  "pointfloat m =
     (let ip = takeWhile (\<lambda>c. c \<noteq> CHR ''.'') m; fr = dropWhile (\<lambda>c. c \<noteq> CHR ''.'') m
      in if fr = [] then digitpart ip
         else (ip = [] \<and> digitpart (tl fr)) \<or> (digitpart ip \<and> (tl fr = [] \<or> digitpart (tl fr))))"

definition floatnumber :: "string \<Rightarrow> bool" where
  "floatnumber u =
     (let m = takeWhile (\<lambda>c. c \<noteq> CHR ''e'' \<and> c \<noteq> CHR ''E'') u;
          ex = dropWhile (\<lambda>c. c \<noteq> CHR ''e'' \<and> c \<noteq> CHR ''E'') u
      in pointfloat m \<and> (ex = [] \<or> digitpart (unsigned (tl ex))))"

definition floatvalue :: "string \<Rightarrow> bool" where
  "floatvalue s =
     (let u = unsigned (strip s)
      in spells u ''inf'' \<or> spells u ''infinity'' \<or> spells u ''nan'' \<or> floatnumber u)"

text \<open>
  \<open>float(v)\<close>. A JSON number with a fraction or an exponent is a float already; an
  integer converts unless it rounds, to nearest and ties to even, beyond the largest
  double, that is from \<open>2 ^ 1024 - 2 ^ 970\<close> on; a string must spell a float;
  \<open>null\<close>, arrays and objects are refused.
\<close>

definition py_float :: "json \<Rightarrow> exn + pyfloat" where
  "py_float v =
     (case v of
        JNull \<Rightarrow> Inl TypeError
      | JBool b \<Rightarrow> Inr (Float v)
      | JInt n \<Rightarrow> if 2 ^ 1024 - 2 ^ 970 \<le> \<bar>n\<bar> then Inl OverflowError else Inr (Float v)
      | JReal r \<Rightarrow> Inr (Float v)
      | JStr s \<Rightarrow> if floatvalue s then Inr (Float v) else Inl ValueError
      | JArray \<Rightarrow> Inl TypeError
      | JObject \<Rightarrow> Inl TypeError)"

section \<open>Session store operations\<close>

text \<open>\<open>initialize_session_history\<close>; every caller discards the returned list.\<close>

definition initialize_session_history :: "store \<Rightarrow> string \<Rightarrow> (store \<times> unit) option" where
  "initialize_session_history st session_id =
     with_history_lock (\<lambda>st.
        Some (if session_histories st session_id = None
              then st\<lparr>session_histories := (session_histories st)(session_id \<mapsto> [])\<rparr>
              else st, ())) st"

record response =
  http_status :: nat
  status :: string
  message :: string

text \<open>\<open>create_session_route\<close>; the fresh \<open>uuid4()\<close> string is a parameter.\<close>

definition create_session_route :: "string \<Rightarrow> store \<Rightarrow> (store \<times> response \<times> string option) option" where
  "create_session_route uuid st =
     (case initialize_session_history st uuid of
        None \<Rightarrow> None
      | Some (st', _) \<Rightarrow>
          Some (st', \<lparr>http_status = 200, status = ''success'', message = []\<rparr>, Some uuid))"

text \<open>\<open>clear_backend_history_route\<close>; the argument is \<open>data.get('session_id')\<close>.\<close>

definition clear_backend_history_route :: "store \<Rightarrow> string option \<Rightarrow> (store \<times> response) option" where
  "clear_backend_history_route st session_id =
     (if \<not> truthy session_id
      then Some (st, \<lparr>http_status = 400, status = ''error'', message = ''session_id is required''\<rparr>)
      else
        (case with_history_lock (\<lambda>st.
                 if session_histories st (the session_id) \<noteq> None
                 then Some (st\<lparr>session_histories := (session_histories st)(the session_id \<mapsto> [])\<rparr>,
                            ''Backend chat history cleared for this session.'')
                 else (case initialize_session_history st (the session_id) of
                         None \<Rightarrow> None
                       | Some (st', _) \<Rightarrow>
                           Some (st', ''Backend session history was not found (or was new) and is now initialized empty.''))) st of
           None \<Rightarrow> None
         | Some (st', msg) \<Rightarrow> Some (st', \<lparr>http_status = 200, status = ''success'', message = msg\<rparr>)))"

section \<open>The streaming chat generator\<close>

datatype event =
    TextChunk (text_chunk: string) (is_final: bool)
  | FullResponse (full_response: string) (is_final: bool)
  | ErrorEvent (error: string) (is_final: bool)

record payload =
  p_session_id :: "string option"
  p_prompt :: "string option"
  p_system_prompt :: "json option"
  p_temperature :: "json option"
  p_model_id :: "string option"

text \<open>
  The external collaborator. \<open>LlamaGroq model api_key\<close> either raises (\<open>Inl\<close> of the
  exception's text) or gives an \<open>llm\<close>; \<open>stream_chat\<close> of an \<open>llm\<close> produces the
  \<open>delta\<close> of each chunk (\<open>None\<close> or a string) and then ends normally (\<open>None\<close>) or
  raises (\<open>Some\<close> of the exception's text).
\<close>

type_synonym stream_resp = "string option list \<times> string option"
type_synonym llm = "ChatMessage list \<Rightarrow> pyfloat \<Rightarrow> stream_resp"
type_synonym groq = "string \<Rightarrow> string \<Rightarrow> string + llm"

text \<open>Lines 110 to 114: the loop that converts the stored dicts.\<close>

fun history_to_messages :: "msg_dict list \<Rightarrow> ChatMessage list \<Rightarrow> ChatMessage list" where
  "history_to_messages [] messages_for_llm = messages_for_llm"
| "history_to_messages (msg_dict # rest) messages_for_llm =
     (if role msg_dict = SYSTEM \<and> messages_for_llm \<noteq> [] \<and> cm_role (hd messages_for_llm) = SYSTEM
      then history_to_messages rest messages_for_llm
      else history_to_messages rest
             (messages_for_llm @ [ChatMessage (role msg_dict) (content msg_dict)]))"

text \<open>
  Lines 93 to 114, the body of the first \<open>with history_lock\<close>. \<open>current_history_dicts\<close>
  is a new list of the same dict objects, so the assignment of line 105 writes to the
  object that the stored history holds at index 0.
\<close>

definition assemble_messages :: "string \<Rightarrow> string \<Rightarrow> store \<Rightarrow> (store \<times> ChatMessage list) option" where
  "assemble_messages session_id system_prompt_text st =
     (let current_history_dicts =
            (case session_histories st session_id of None \<Rightarrow> [] | Some l \<Rightarrow> l);
          (st1, messages_for_llm) =
            (if system_prompt_text \<noteq> [] then
               (if current_history_dicts = [] \<or> role (dicts st ! hd current_history_dicts) \<noteq> SYSTEM
                then (st, [ChatMessage SYSTEM system_prompt_text])
                else if role (dicts st ! hd current_history_dicts) = SYSTEM
                        \<and> content (dicts st ! hd current_history_dicts) \<noteq> system_prompt_text
                then (st\<lparr>dicts := (dicts st)[hd current_history_dicts :=
                              (dicts st ! hd current_history_dicts)\<lparr>content := system_prompt_text\<rparr>]\<rparr>,
                      [ChatMessage SYSTEM system_prompt_text])
                else (st, []))
             else (st, []))
      in Some (st1, history_to_messages (map (\<lambda>a. dicts st1 ! a) current_history_dicts) messages_for_llm))"

text \<open>Lines 124 to 129: the loop over the stream.\<close>

fun consume :: "string option list \<Rightarrow> string \<Rightarrow> event list \<Rightarrow> string \<times> event list" where
  "consume [] full_response_content events = (full_response_content, events)"
| "consume (delta_content # rest) full_response_content events =
     (if truthy delta_content
      then consume rest (full_response_content @ the delta_content)
             (events @ [TextChunk (the delta_content) False])
      else consume rest full_response_content events)"

text \<open>Lines 132 to 146, the body of the second \<open>with history_lock\<close>.\<close>

definition persist_exchange ::
  "string \<Rightarrow> string \<Rightarrow> string \<Rightarrow> string \<Rightarrow> store \<Rightarrow> (store \<times> unit) option" where
  "persist_exchange session_id system_prompt_text user_prompt_text full_response_content st =
     (case (if session_histories st session_id = None
            then initialize_session_history st session_id else Some (st, ())) of
        None \<Rightarrow> None
      | Some (st1, _) \<Rightarrow>
         (let h = the (session_histories st1 session_id);
              st2 =
                (if system_prompt_text \<noteq> [] then
                   (if h = [] \<or> role (dicts st1 ! hd h) \<noteq> SYSTEM
                    then st1\<lparr>session_histories :=
                                (session_histories st1)(session_id \<mapsto> length (dicts st1) # h),
                             dicts := dicts st1 @ [\<lparr>role = SYSTEM, content = system_prompt_text\<rparr>]\<rparr>
                    else if role (dicts st1 ! hd h) = SYSTEM
                            \<and> content (dicts st1 ! hd h) \<noteq> system_prompt_text
                    then st1\<lparr>dicts := (dicts st1)[hd h := (dicts st1 ! hd h)\<lparr>content := system_prompt_text\<rparr>]\<rparr>
                    else st1)
                 else st1);
              st3 = st2\<lparr>session_histories :=
                          (session_histories st2)(session_id \<mapsto>
                             the (session_histories st2 session_id) @ [length (dicts st2)]),
                        dicts := dicts st2 @ [\<lparr>role = USER, content = user_prompt_text\<rparr>]\<rparr>;
              st4 = st3\<lparr>session_histories :=
                          (session_histories st3)(session_id \<mapsto>
                             the (session_histories st3 session_id) @ [length (dicts st3)]),
                        dicts := dicts st3 @ [\<lparr>role = ASSISTANT, content = full_response_content\<rparr>]\<rparr>
          in Some (st4, ())))"

text \<open>
  How a run of the generator ends: it returns, or an exception leaves it. (A run that
  waits for ever for the lock is the value \<open>None\<close>, as above.)
\<close>

datatype ending = Returned | Raised exn

text \<open>
  \<open>generate_chat_stream_with_session\<close>, run to its end: the store it leaves, the
  events it yielded, in order, and how it ended. \<open>GROQ_API_KEY\<close> is
  \<open>os.environ.get("GROQ_API_KEY")\<close>. Lines 68 and 69 stand before the validation and
  before the \<open>try\<close> of line 89, so what they raise leaves the generator before it
  has yielded anything.
\<close>

definition generate_chat_stream_with_session ::
  "groq \<Rightarrow> string option \<Rightarrow> store \<Rightarrow> payload \<Rightarrow> (store \<times> event list \<times> ending) option" where
  "generate_chat_stream_with_session LlamaGroq GROQ_API_KEY st p =
     (let session_id = p_session_id p;
          user_prompt_text = p_prompt p
      in
      case py_strip (case p_system_prompt p of None \<Rightarrow> JStr [] | Some v \<Rightarrow> v) of
        Inl e \<Rightarrow> Some (st, [], Raised e)
      | Inr system_prompt_text \<Rightarrow>
      case py_float (case p_temperature p of None \<Rightarrow> JReal (7 / 10) | Some v \<Rightarrow> v) of
        Inl e \<Rightarrow> Some (st, [], Raised e)
      | Inr temperature \<Rightarrow>
      let model_id = (case p_model_id p of None \<Rightarrow> ''llama3-8b-8192'' | Some m \<Rightarrow> m)
      in
      if \<not> truthy session_id
      then Some (st, [ErrorEvent ''session_id is required for backend history'' True], Returned)
      else if \<not> truthy user_prompt_text
      then Some (st, [ErrorEvent ''Prompt is required'' True], Returned)
      else if \<not> truthy GROQ_API_KEY
      then Some (st, [ErrorEvent ''GROQ_API_KEY not configured on server.'' True], Returned)
      else
        (case LlamaGroq model_id (the GROQ_API_KEY) of
           Inl e \<Rightarrow> Some (st, [ErrorEvent (''LLM Error: '' @ e) True], Returned)
         | Inr llm \<Rightarrow>
            (case with_history_lock (assemble_messages (the session_id) system_prompt_text) st of
               None \<Rightarrow> None
             | Some (st1, messages) \<Rightarrow>
                (let messages_for_llm = messages @ [ChatMessage USER (the user_prompt_text)];
                     stream_resp = llm messages_for_llm temperature;
                     (full_response_content, chunks) = consume (fst stream_resp) [] []
                 in (case snd stream_resp of
                       Some e \<Rightarrow>
                         Some (st1, chunks @ [ErrorEvent (''LLM Error: '' @ e) True], Returned)
                     | None \<Rightarrow>
                        (case with_history_lock
                                (persist_exchange (the session_id) system_prompt_text
                                   (the user_prompt_text) full_response_content) st1 of
                           None \<Rightarrow> None
                         | Some (st2, _) \<Rightarrow>
                             Some (st2, chunks @ [FullResponse full_response_content True],
                                   Returned)))))))"

text \<open>\<open>chat_route_post\<close>: the session is initialised, then the generator runs.\<close>

definition chat_route_post ::
  "groq \<Rightarrow> string option \<Rightarrow> store \<Rightarrow> payload \<Rightarrow> (store \<times> event list \<times> ending) option" where
  "chat_route_post LlamaGroq GROQ_API_KEY st p =
     (case (if truthy (p_session_id p)
            then initialize_session_history st (the (p_session_id p)) else Some (st, ())) of
        None \<Rightarrow> None
      | Some (st1, _) \<Rightarrow> generate_chat_stream_with_session LlamaGroq GROQ_API_KEY st1 p)"

section \<open>Well-formed and reachable stores\<close>

text \<open>Every index that a stored history holds points to an existing dict.\<close>

definition heap_ok :: "store \<Rightarrow> bool" where
  "heap_ok st =
     (\<forall>sid l. session_histories st sid = Some l \<longrightarrow> (\<forall>a\<in>set l. a < length (dicts st)))"

text \<open>The history of a session as the generator reads it: empty for an unknown id.\<close>

definition history_of :: "store \<Rightarrow> string \<Rightarrow> msg_dict list" where
  "history_of st session_id = (case transcript st session_id of None \<Rightarrow> [] | Some t \<Rightarrow> t)"

text \<open>
  The stores that the program can be in between two operations. Besides the three routes,
  the two locked blocks of the generator are steps of their own, since other requests may
  run between them while the generator waits for the collaborator.
\<close>

inductive reachable :: "store \<Rightarrow> bool" where
  r_empty: "reachable empty_store"
| r_create: "reachable st \<Longrightarrow> create_session_route uuid st = Some (st', r) \<Longrightarrow> reachable st'"
| r_initialize: "reachable st \<Longrightarrow> initialize_session_history st sid = Some (st', u) \<Longrightarrow> reachable st'"
| r_clear: "reachable st \<Longrightarrow> clear_backend_history_route st data = Some (st', r) \<Longrightarrow> reachable st'"
| r_chat: "reachable st \<Longrightarrow> chat_route_post LlamaGroq key st p = Some (st', evs, e) \<Longrightarrow> reachable st'"
| r_assemble: "reachable st \<Longrightarrow>
     with_history_lock (assemble_messages sid sp) st = Some (st', msgs) \<Longrightarrow> reachable st'"
| r_persist: "reachable st \<Longrightarrow>
     with_history_lock (persist_exchange sid sp up full) st = Some (st', u) \<Longrightarrow> reachable st'"

section \<open>The transcript invariant\<close>

text \<open>No message after the first has the role \<open>system\<close>.\<close>

definition system_only_first :: "msg_dict list \<Rightarrow> bool" where
  "system_only_first t = list_all (\<lambda>m. role m \<noteq> SYSTEM) (tl t)"

text \<open>
  What holds of the store between two operations: the lock is free, the stored indices
  are valid, and every transcript keeps its system message, if any, in front.
\<close>

definition store_inv :: "store \<Rightarrow> bool" where
  "store_inv st = (\<not> history_lock st \<and> heap_ok st \<and>
     (\<forall>sid t. transcript st sid = Some t \<longrightarrow> system_only_first t))"

section \<open>The locals of the generator\<close>

text \<open>
  Names for what \<open>generate_chat_stream_with_session\<close> binds in its first lines, for
  the store after \<open>chat_route_post\<close> has initialised the session, and for the deltas
  that pass the test \<open>if delta_content\<close>.
\<close>

abbreviation system_prompt_text_of :: "payload \<Rightarrow> exn + string" where
  "system_prompt_text_of p \<equiv>
     py_strip (case p_system_prompt p of None \<Rightarrow> JStr [] | Some v \<Rightarrow> v)"

abbreviation temperature_of :: "payload \<Rightarrow> exn + pyfloat" where
  "temperature_of p \<equiv>
     py_float (case p_temperature p of None \<Rightarrow> JReal (7 / 10) | Some v \<Rightarrow> v)"

text \<open>The list that lines 92 to 118 build and line 122 hands to the collaborator.\<close>

definition messages_for_llm :: "store \<Rightarrow> string \<Rightarrow> string \<Rightarrow> string \<Rightarrow> ChatMessage list" where
  "messages_for_llm st session_id system_prompt_text user_prompt_text =
     snd (the (assemble_messages session_id system_prompt_text st))
     @ [ChatMessage USER user_prompt_text]"

abbreviation model_id_of :: "payload \<Rightarrow> string" where
  "model_id_of p \<equiv> (case p_model_id p of None \<Rightarrow> ''llama3-8b-8192'' | Some m \<Rightarrow> m)"

abbreviation ensured :: "store \<Rightarrow> string \<Rightarrow> store" where
  "ensured st sid \<equiv> (if session_histories st sid = None
      then st\<lparr>session_histories := (session_histories st)(sid \<mapsto> [])\<rparr> else st)"

abbreviation emitted :: "string option list \<Rightarrow> string list" where
  "emitted deltas \<equiv> map the (filter truthy deltas)"

section \<open>Concrete inputs\<close>

text \<open>A stub collaborator that plays one fixed stream, whatever it is asked.\<close>

definition stub_groq :: "stream_resp \<Rightarrow> groq" where
  "stub_groq resp model_id api_key = Inr (\<lambda>messages temperature. resp)"

definition chat_request :: "string \<Rightarrow> string \<Rightarrow> string \<Rightarrow> payload" where
  "chat_request sid text sys =
     \<lparr>p_session_id = Some sid, p_prompt = Some text, p_system_prompt = Some (JStr sys),
      p_temperature = None, p_model_id = None\<rparr>"

text \<open>Session \<open>s1\<close> after one exchange under the system prompt \<open>A\<close>.\<close>

definition demo_store :: store where
  "demo_store =
     \<lparr>session_histories = [''s1'' \<mapsto> [0, 1, 2]],
      dicts = [\<lparr>role = SYSTEM, content = ''A''\<rparr>, \<lparr>role = USER, content = ''hi''\<rparr>,
               \<lparr>role = ASSISTANT, content = ''yo''\<rparr>],
      history_lock = False\<rparr>"

text \<open>A request that carries no session id.\<close>

definition anonymous_request :: payload where
  "anonymous_request =
     \<lparr>p_session_id = None, p_prompt = Some ''hi'', p_system_prompt = None,
      p_temperature = None, p_model_id = None\<rparr>"

section \<open>The lock\<close>

lemma with_history_lock_free:
  "\<not> history_lock st \<Longrightarrow> with_history_lock body st =
     (case body (st\<lparr>history_lock := True\<rparr>) of None \<Rightarrow> None
      | Some (st', r) \<Rightarrow> Some (st'\<lparr>history_lock := False\<rparr>, r))"
  by (simp add: with_history_lock_def)

lemma with_history_lock_held: "history_lock st \<Longrightarrow> with_history_lock body st = None"
  by (simp add: with_history_lock_def)

lemma initialize_free:
  "\<not> history_lock st \<Longrightarrow> initialize_session_history st sid =
     Some (if session_histories st sid = None
           then st\<lparr>session_histories := (session_histories st)(sid \<mapsto> [])\<rparr> else st, ())"
  by (simp add: initialize_session_history_def with_history_lock_def)

lemma initialize_held: "history_lock st \<Longrightarrow> initialize_session_history st sid = None"
  by (simp add: initialize_session_history_def with_history_lock_def)

lemma demo_store_reached:
  "chat_route_post (stub_groq ([Some ''yo''], None)) (Some ''k'') empty_store
     (chat_request ''s1'' ''hi'' ''A'')
   = Some (demo_store, [TextChunk ''yo'' False, FullResponse ''yo'' True], Returned)"
  by (simp add: chat_route_post_def generate_chat_stream_with_session_def chat_request_def
      stub_groq_def empty_store_def demo_store_def truthy_def strip_def isspace_def
      py_strip_def py_float_def
      initialize_session_history_def with_history_lock_def assemble_messages_def
      persist_exchange_def Let_def numeral_2_eq_2)

lemma demo_store_reachable: "reachable demo_store"
  by (rule r_chat[OF r_empty demo_store_reached])

lemma demo_transcript:
  "transcript demo_store ''s1'' =
     Some [\<lparr>role = SYSTEM, content = ''A''\<rparr>, \<lparr>role = USER, content = ''hi''\<rparr>,
           \<lparr>role = ASSISTANT, content = ''yo''\<rparr>]"
  by (simp add: transcript_def demo_store_def)

section \<open>Strings and the two loops\<close>

lemma consume_eq:
  "consume ds full evs =
     (full @ concat (map the (filter truthy ds)),
      evs @ map (\<lambda>d. TextChunk d False) (map the (filter truthy ds)))"
  by (induction ds arbitrary: full evs) simp_all

lemma strip_empty_iff: "strip s = [] \<longleftrightarrow> list_all isspace s"
proof
  assume "strip s = []"
  then have "dropWhile isspace (rev (dropWhile isspace s)) = []"
    by (simp add: strip_def)
  then have all: "\<forall>x\<in>set (dropWhile isspace s). isspace x"
    by (simp only: dropWhile_eq_Nil_conv set_rev)
  have "dropWhile isspace s = []"
  proof (rule ccontr)
    assume ne: "dropWhile isspace s \<noteq> []"
    then have "\<not> isspace (hd (dropWhile isspace s))" by (rule hd_dropWhile)
    moreover have "hd (dropWhile isspace s) \<in> set (dropWhile isspace s)" using ne by simp
    ultimately show False using all by blast
  qed
  then show "list_all isspace s"
    by (simp add: list_all_iff)
next
  assume "list_all isspace s"
  then have "dropWhile isspace s = []"
    by (simp add: list_all_iff)
  then show "strip s = []"
    by (simp add: strip_def del: dropWhile_eq_Nil_conv)
qed

lemma dropWhile_rev_keeps_head:
  assumes "xs \<noteq> []" "\<not> P (hd xs)"
  shows "rev (dropWhile P (rev xs)) \<noteq> [] \<and> hd (rev (dropWhile P (rev xs))) = hd xs"
proof -
  obtain x r where xs: "xs = x # r" using assms(1) by (cases xs) auto
  with assms(2) have nx: "\<not> P x" by simp
  have "dropWhile P (rev r @ [x]) = dropWhile P (rev r) @ [x]"
    using nx by (simp add: dropWhile_append)
  then show ?thesis using xs by simp
qed

lemma strip_idem: "strip (strip s) = strip s"
proof (cases "dropWhile isspace s = []")
  case True
  have e: "strip s = []" unfolding strip_def True by simp
  have "strip [] = []" by (simp add: strip_def)
  with e show ?thesis by simp
next
  case False
  define X where "X = dropWhile isspace s"
  define Y where "Y = rev (dropWhile isspace (rev X))"
  have hX: "\<not> isspace (hd X)" using False X_def by (simp add: hd_dropWhile)
  have "Y \<noteq> [] \<and> hd Y = hd X"
    unfolding Y_def using dropWhile_rev_keeps_head[of X isspace] False hX X_def by simp
  then have "dropWhile isspace Y = Y"
    using hX by (cases Y) auto
  moreover have "rev (dropWhile isspace (rev Y)) = Y"
    by (simp add: Y_def)
  ultimately show ?thesis
    by (simp add: strip_def X_def[symmetric] Y_def[symmetric])
qed

lemma h2m_system_head:
  "pre \<noteq> [] \<Longrightarrow> cm_role (hd pre) = SYSTEM \<Longrightarrow>
   history_to_messages ds pre = pre @ map (\<lambda>d. ChatMessage (role d) (content d)) (filter (\<lambda>d. role d \<noteq> SYSTEM) ds)"
  by (induction ds arbitrary: pre) auto

lemma h2m_no_system:
  "list_all (\<lambda>d. role d \<noteq> SYSTEM) ds \<Longrightarrow>
   history_to_messages ds pre = pre @ map (\<lambda>d. ChatMessage (role d) (content d)) ds"
  by (induction ds arbitrary: pre) auto

lemma h2m_empty_start:
  "list_all (\<lambda>d. role d \<noteq> SYSTEM) (tl ds) \<Longrightarrow>
   history_to_messages ds [] = map (\<lambda>d. ChatMessage (role d) (content d)) ds"
  by (cases ds) (auto simp: h2m_no_system)

section \<open>Dicts and transcripts\<close>

lemma update_content_roles: "map role (D[a := (D ! a)\<lparr>content := c\<rparr>]) = map role D"
  by (cases "a < length D") (simp_all add: map_update list_update_same_conv list_update_beyond)

lemma update_content_role_nth: "role (D[a := (D ! a)\<lparr>content := c\<rparr>] ! b) = role (D ! b)"
  by (cases "a < length D"; cases "a = b") (simp_all add: list_update_beyond)

lemma filter_update_content:
  "role (D ! a) = SYSTEM \<Longrightarrow>
   filter (\<lambda>d. role d \<noteq> SYSTEM) (map (\<lambda>b. D[a := (D ! a)\<lparr>content := c\<rparr>] ! b) h)
   = filter (\<lambda>d. role d \<noteq> SYSTEM) (map (\<lambda>b. D ! b) h)"
proof (induction h)
  case Nil
  show ?case by simp
next
  case (Cons b bs)
  show ?case
  proof (cases "b = a")
    case True
    then show ?thesis using Cons by (simp add: update_content_role_nth)
  next
    case False
    then have "D[a := (D ! a)\<lparr>content := c\<rparr>] ! b = D ! b" by simp
    then show ?thesis using Cons by simp
  qed
qed

lemma system_only_first_roles:
  "map role t' = map role t \<Longrightarrow> system_only_first t' = system_only_first t"
proof -
  assume e: "map role t' = map role t"
  have "system_only_first x = list_all (\<lambda>r. r \<noteq> SYSTEM) (tl (map role x))" for x
    by (cases x) (simp_all add: system_only_first_def list_all_iff)
  with e show ?thesis by simp
qed

lemma transcript_Some:
  "transcript st sid = Some t \<longleftrightarrow> (\<exists>h. session_histories st sid = Some h \<and> t = map (\<lambda>a. dicts st ! a) h)"
  by (auto simp: transcript_def)

lemma history_of_known:
  "session_histories st sid = Some h \<Longrightarrow> history_of st sid = map (\<lambda>a. dicts st ! a) h"
  by (simp add: history_of_def transcript_def)

lemma history_of_unknown: "session_histories st sid = None \<Longrightarrow> history_of st sid = []"
  by (simp add: history_of_def transcript_def)

lemma assemble_blank:
  "\<not> history_lock st \<Longrightarrow>
   with_history_lock (assemble_messages sid []) st = Some (st, history_to_messages (history_of st sid) [])"
  by (auto simp: with_history_lock_def assemble_messages_def history_of_def transcript_def Let_def
      split: option.splits)

lemma assemble_shape:
  assumes "\<not> history_lock st"
  shows "\<exists>st' msgs. with_history_lock (assemble_messages sid sp) st = Some (st', msgs)
           \<and> \<not> history_lock st' \<and> session_histories st' = session_histories st
           \<and> length (dicts st') = length (dicts st) \<and> map role (dicts st') = map role (dicts st)"
  using assms
  by (auto simp: with_history_lock_def assemble_messages_def Let_def update_content_roles
      split: option.splits)

lemma assemble_messages_system:
  assumes "\<not> history_lock st" "sp \<noteq> []"
  shows "\<exists>st1. with_history_lock (assemble_messages sid sp) st =
     Some (st1, ChatMessage SYSTEM sp #
                map (\<lambda>d. ChatMessage (role d) (content d))
                  (filter (\<lambda>d. role d \<noteq> SYSTEM) (history_of st sid)))"
proof (cases "session_histories st sid")
  case None
  then show ?thesis using assms
    by (simp add: with_history_lock_def assemble_messages_def history_of_unknown)
next
  case (Some h)
  note hk = history_of_known[OF Some]
  show ?thesis
  proof (cases "h = [] \<or> role (dicts st ! hd h) \<noteq> SYSTEM")
    case True
    then show ?thesis using assms Some
      by (auto simp: with_history_lock_def assemble_messages_def hk h2m_system_head)
  next
    case False
    then obtain a r where h: "h = a # r" and ra: "role (dicts st ! a) = SYSTEM"
      by (cases h) auto
    show ?thesis
    proof (cases "content (dicts st ! a) = sp")
      case True
      have "ChatMessage (role (dicts st ! a)) (content (dicts st ! a)) = ChatMessage SYSTEM sp"
        using ra True by simp
      then show ?thesis using assms Some h ra True
        by (simp add: with_history_lock_def assemble_messages_def hk h2m_system_head)
    next
      case False
      show ?thesis using assms Some h ra False
        by (simp add: with_history_lock_def assemble_messages_def hk h2m_system_head
            update_content_role_nth filter_update_content)
    qed
  qed
qed

section \<open>The commit block\<close>

lemma persist_unknown:
  "session_histories st sid = None \<Longrightarrow>
   with_history_lock (persist_exchange sid sp up full) st = None"
  by (simp add: with_history_lock_def persist_exchange_def initialize_held)

lemma persist_insert:
  assumes "\<not> history_lock st" "session_histories st sid = Some h" "sp \<noteq> []"
    "h = [] \<or> role (dicts st ! hd h) \<noteq> SYSTEM"
  shows "with_history_lock (persist_exchange sid sp up full) st =
     Some (st\<lparr>session_histories := (session_histories st)(sid \<mapsto>
                 length (dicts st) # h @ [Suc (length (dicts st)), Suc (Suc (length (dicts st)))]),
              dicts := dicts st @ [\<lparr>role = SYSTEM, content = sp\<rparr>, \<lparr>role = USER, content = up\<rparr>,
                                   \<lparr>role = ASSISTANT, content = full\<rparr>]\<rparr>, ())"
  using assms by (auto simp add: with_history_lock_def persist_exchange_def Let_def)

lemma persist_replace:
  assumes "\<not> history_lock st" "session_histories st sid = Some h" "sp \<noteq> []"
    "h \<noteq> []" "role (dicts st ! hd h) = SYSTEM" "content (dicts st ! hd h) \<noteq> sp"
  shows "with_history_lock (persist_exchange sid sp up full) st =
     Some (st\<lparr>session_histories := (session_histories st)(sid \<mapsto>
                 h @ [length (dicts st), Suc (length (dicts st))]),
              dicts := (dicts st)[hd h := (dicts st ! hd h)\<lparr>content := sp\<rparr>]
                         @ [\<lparr>role = USER, content = up\<rparr>, \<lparr>role = ASSISTANT, content = full\<rparr>]\<rparr>, ())"
  using assms by (auto simp add: with_history_lock_def persist_exchange_def Let_def)

lemma persist_keep:
  assumes "\<not> history_lock st" "session_histories st sid = Some h"
    "sp = [] \<or> (h \<noteq> [] \<and> role (dicts st ! hd h) = SYSTEM \<and> content (dicts st ! hd h) = sp)"
  shows "with_history_lock (persist_exchange sid sp up full) st =
     Some (st\<lparr>session_histories := (session_histories st)(sid \<mapsto>
                 h @ [length (dicts st), Suc (length (dicts st))]),
              dicts := dicts st @ [\<lparr>role = USER, content = up\<rparr>, \<lparr>role = ASSISTANT, content = full\<rparr>]\<rparr>, ())"
  using assms by (auto simp add: with_history_lock_def persist_exchange_def Let_def)

lemma update_same_content:
  "content (D ! a) = c \<Longrightarrow> D[a := (D ! a)\<lparr>content := c\<rparr>] = D"
  by (cases "a < length D") (auto simp: list_update_same_conv list_update_beyond)

lemma persist_result:
  assumes "\<not> history_lock st" "heap_ok st" "session_histories st sid = Some h"
  shows "\<exists>st'. with_history_lock (persist_exchange sid sp up full) st = Some (st', ())
     \<and> \<not> history_lock st' \<and> heap_ok st'
     \<and> (\<forall>sid'. sid' \<noteq> sid \<longrightarrow> session_histories st' sid' = session_histories st sid')
     \<and> length (dicts st) \<le> length (dicts st')
     \<and> (\<forall>b<length (dicts st). role (dicts st' ! b) = role (dicts st ! b))
     \<and> transcript st' sid = Some (
          (if sp \<noteq> [] \<and> (h = [] \<or> role (dicts st ! hd h) \<noteq> SYSTEM)
           then [\<lparr>role = SYSTEM, content = sp\<rparr>] else [])
          @ map (\<lambda>b. (if sp \<noteq> [] \<and> h \<noteq> [] \<and> role (dicts st ! hd h) = SYSTEM
                       then (dicts st)[hd h := (dicts st ! hd h)\<lparr>content := sp\<rparr>]
                       else dicts st) ! b) h
          @ [\<lparr>role = USER, content = up\<rparr>, \<lparr>role = ASSISTANT, content = full\<rparr>])"
proof -
  have inr: "\<forall>a\<in>set h. a < length (dicts st)"
    using assms(2,3) by (auto simp: heap_ok_def)
  consider (ins) "sp \<noteq> []" "h = [] \<or> role (dicts st ! hd h) \<noteq> SYSTEM"
    | (rep) "sp \<noteq> []" "h \<noteq> []" "role (dicts st ! hd h) = SYSTEM" "content (dicts st ! hd h) \<noteq> sp"
    | (keep) "sp = [] \<or> (h \<noteq> [] \<and> role (dicts st ! hd h) = SYSTEM \<and> content (dicts st ! hd h) = sp)"
    by blast
  then show ?thesis
  proof cases
    case ins
    have ok: "heap_ok (st\<lparr>session_histories := (session_histories st)(sid \<mapsto>
                 length (dicts st) # h @ [Suc (length (dicts st)), Suc (Suc (length (dicts st)))]),
              dicts := dicts st @ [\<lparr>role = SYSTEM, content = sp\<rparr>, \<lparr>role = USER, content = up\<rparr>,
                                   \<lparr>role = ASSISTANT, content = full\<rparr>]\<rparr>)"
      using assms(2) inr by (fastforce simp: heap_ok_def)
    show ?thesis
      unfolding persist_insert[OF assms(1,3) ins]
      using ins assms(1) inr ok
      by (auto simp: transcript_def nth_append)
  next
    case rep
    have ok: "heap_ok (st\<lparr>session_histories := (session_histories st)(sid \<mapsto>
                 h @ [length (dicts st), Suc (length (dicts st))]),
              dicts := (dicts st)[hd h := (dicts st ! hd h)\<lparr>content := sp\<rparr>]
                         @ [\<lparr>role = USER, content = up\<rparr>, \<lparr>role = ASSISTANT, content = full\<rparr>]\<rparr>)"
      using assms(2) inr by (fastforce simp: heap_ok_def)
    show ?thesis
      unfolding persist_replace[OF assms(1,3) rep]
      using rep assms(1) inr ok
      by (auto simp: transcript_def nth_append update_content_role_nth)
  next
    case keep
    have ok: "heap_ok (st\<lparr>session_histories := (session_histories st)(sid \<mapsto>
                 h @ [length (dicts st), Suc (length (dicts st))]),
              dicts := dicts st @ [\<lparr>role = USER, content = up\<rparr>, \<lparr>role = ASSISTANT, content = full\<rparr>]\<rparr>)"
      using assms(2) inr by (fastforce simp: heap_ok_def)
    show ?thesis
      unfolding persist_keep[OF assms(1,3) keep]
      using keep assms(1) inr ok
      by (auto simp: transcript_def nth_append update_same_content)
  qed
qed

section \<open>The invariant is kept\<close>

lemma roles_transfer:
  assumes "\<forall>a\<in>set h. a < n" "\<forall>b<n. role (D' ! b) = role (D ! b)"
  shows "map role (map (\<lambda>a. D' ! a) h) = map role (map (\<lambda>a. D ! a) h)"
  using assms by simp

lemma inv_empty: "store_inv empty_store"
  by (simp add: store_inv_def empty_store_def heap_ok_def transcript_def)

lemma inv_initialize:
  assumes "store_inv st" "initialize_session_history st sid = Some (st', u)"
  shows "store_inv st'"
proof -
  have free: "\<not> history_lock st" using assms(1) by (simp add: store_inv_def)
  show ?thesis
  proof (cases "session_histories st sid = None")
    case True
    then have "st' = st\<lparr>session_histories := (session_histories st)(sid \<mapsto> [])\<rparr>"
      using assms(2) free by (simp add: initialize_free)
    then show ?thesis using assms(1)
      by (auto simp: store_inv_def heap_ok_def transcript_def system_only_first_def split: if_splits)
  next
    case False
    then have "st' = st" using assms(2) free by (auto simp: initialize_free)
    then show ?thesis using assms(1) by simp
  qed
qed

lemma inv_create:
  assumes "store_inv st" "create_session_route uuid st = Some (st', r)"
  shows "store_inv st'"
  using assms by (auto simp: create_session_route_def split: option.splits dest: inv_initialize)

lemma clear_known:
  assumes "\<not> history_lock st" "session_histories st sid = Some h" "sid \<noteq> []"
  shows "clear_backend_history_route st (Some sid) =
     Some (st\<lparr>session_histories := (session_histories st)(sid \<mapsto> [])\<rparr>,
           \<lparr>http_status = 200, status = ''success'',
            message = ''Backend chat history cleared for this session.''\<rparr>)"
  using assms by (simp add: clear_backend_history_route_def truthy_def with_history_lock_def)

lemma clear_unknown:
  assumes "session_histories st sid = None" "sid \<noteq> []"
  shows "clear_backend_history_route st (Some sid) = None"
  using assms
  by (simp add: clear_backend_history_route_def truthy_def with_history_lock_def initialize_held)

lemma clear_falsy:
  assumes "\<not> truthy data"
  shows "clear_backend_history_route st data =
     Some (st, \<lparr>http_status = 400, status = ''error'', message = ''session_id is required''\<rparr>)"
  using assms by (simp add: clear_backend_history_route_def)

lemma inv_clear:
  assumes "store_inv st" "clear_backend_history_route st data = Some (st', r)"
  shows "store_inv st'"
proof (cases "truthy data")
  case False
  then show ?thesis using assms by (simp add: clear_falsy)
next
  case True
  then obtain sid where d: "data = Some sid" "sid \<noteq> []"
    by (auto simp: truthy_def split: option.splits)
  have free: "\<not> history_lock st" using assms(1) by (simp add: store_inv_def)
  show ?thesis
  proof (cases "session_histories st sid")
    case None
    then show ?thesis using assms(2) d by (simp add: clear_unknown)
  next
    case (Some h)
    then have "st' = st\<lparr>session_histories := (session_histories st)(sid \<mapsto> [])\<rparr>"
      using assms(2) d free by (simp add: clear_known)
    then show ?thesis using assms(1)
      by (auto simp: store_inv_def heap_ok_def transcript_def system_only_first_def split: if_splits)
  qed
qed

lemma inv_assemble:
  assumes "store_inv st" "with_history_lock (assemble_messages sid sp) st = Some (st', msgs)"
  shows "store_inv st'"
proof -
  have free: "\<not> history_lock st" and ok: "heap_ok st"
    using assms(1) by (simp_all add: store_inv_def)
  from assemble_shape[OF free, of sid sp] assms(2)
  have s: "\<not> history_lock st'" "session_histories st' = session_histories st"
    "length (dicts st') = length (dicts st)" "map role (dicts st') = map role (dicts st)"
    by auto
  have ok': "heap_ok st'" using ok s by (simp add: heap_ok_def)
  have r: "\<forall>b<length (dicts st). role (dicts st' ! b) = role (dicts st ! b)"
  proof (intro allI impI)
    fix b assume b: "b < length (dicts st)"
    have "role (dicts st' ! b) = map role (dicts st') ! b" using b s(3) by simp
    also have "\<dots> = map role (dicts st) ! b" using s(4) by simp
    also have "\<dots> = role (dicts st ! b)" using b by simp
    finally show "role (dicts st' ! b) = role (dicts st ! b)" .
  qed
  have "system_only_first t" if t: "transcript st' x = Some t" for x t
  proof -
    from t obtain h where h: "session_histories st' x = Some h" "t = map (\<lambda>a. dicts st' ! a) h"
      by (auto simp: transcript_Some)
    have inr: "\<forall>a\<in>set h. a < length (dicts st)"
      using ok h(1) s(2) by (auto simp: heap_ok_def)
    have e: "map role t = map role (map (\<lambda>a. dicts st ! a) h)"
      unfolding h(2) by (rule roles_transfer[OF inr r])
    have "system_only_first (map (\<lambda>a. dicts st ! a) h)"
      using assms(1) h(1) s(2) by (auto simp: store_inv_def transcript_Some)
    then show ?thesis using system_only_first_roles[OF e] by blast
  qed
  then show ?thesis using s(1) ok' by (simp add: store_inv_def)
qed

lemma system_only_first_set: "system_only_first t \<longleftrightarrow> SYSTEM \<notin> set (tl (map role t))"
  by (cases t) (force simp: system_only_first_def list_all_iff)+

lemma persist_Some_known:
  assumes "with_history_lock (persist_exchange sid sp up full) st = Some (st', u)"
  shows "\<not> history_lock st \<and> (\<exists>h. session_histories st sid = Some h)"
proof -
  have "\<not> history_lock st" using assms by (auto simp: with_history_lock_def split: if_splits)
  moreover have "session_histories st sid \<noteq> None"
    using assms persist_unknown[of st sid sp up full] by auto
  ultimately show ?thesis by auto
qed

lemma inv_persist:
  assumes "store_inv st" "with_history_lock (persist_exchange sid sp up full) st = Some (st', u)"
  shows "store_inv st'"
proof -
  have free: "\<not> history_lock st" and ok: "heap_ok st"
    using assms(1) by (simp_all add: store_inv_def)
  from persist_Some_known[OF assms(2)] obtain h where h: "session_histories st sid = Some h"
    by auto
  let ?D1 = "if sp \<noteq> [] \<and> h \<noteq> [] \<and> role (dicts st ! hd h) = SYSTEM
             then (dicts st)[hd h := (dicts st ! hd h)\<lparr>content := sp\<rparr>] else dicts st"
  let ?pre = "if sp \<noteq> [] \<and> (h = [] \<or> role (dicts st ! hd h) \<noteq> SYSTEM)
              then [\<lparr>role = SYSTEM, content = sp\<rparr>] else []"
  from persist_result[OF free ok h, of sp up full] assms(2)
  have s: "\<not> history_lock st'" "heap_ok st'"
    "\<forall>sid'. sid' \<noteq> sid \<longrightarrow> session_histories st' sid' = session_histories st sid'"
    "\<forall>b<length (dicts st). role (dicts st' ! b) = role (dicts st ! b)"
    "transcript st' sid = Some (?pre @ map (\<lambda>b. ?D1 ! b) h
        @ [\<lparr>role = USER, content = up\<rparr>, \<lparr>role = ASSISTANT, content = full\<rparr>])"
    by auto
  have t0: "SYSTEM \<notin> set (tl (map (\<lambda>a. role (dicts st ! a)) h))"
  proof -
    have "system_only_first (map (\<lambda>a. dicts st ! a) h)"
      using assms(1) h by (auto simp: store_inv_def transcript_Some)
    then show ?thesis by (simp add: system_only_first_set comp_def)
  qed
  have r1: "map role (map (\<lambda>b. ?D1 ! b) h) = map (\<lambda>a. role (dicts st ! a)) h"
    by (simp add: update_content_role_nth)
  have "system_only_first t" if t: "transcript st' x = Some t" for x t
  proof (cases "x = sid")
    case True
    with t s(5) have t': "t = ?pre @ map (\<lambda>b. ?D1 ! b) h
        @ [\<lparr>role = USER, content = up\<rparr>, \<lparr>role = ASSISTANT, content = full\<rparr>]" by simp
    have "map role t = map role ?pre @ map (\<lambda>a. role (dicts st ! a)) h @ [USER, ASSISTANT]"
      unfolding t' using r1 by simp
    then show ?thesis using t0
      by (cases h) (auto simp: system_only_first_set split: if_splits)
  next
    case False
    from t obtain h' where h': "session_histories st' x = Some h'" "t = map (\<lambda>a. dicts st' ! a) h'"
      by (auto simp: transcript_Some)
    have old: "session_histories st x = Some h'" using h'(1) s(3) False by simp
    have inr: "\<forall>a\<in>set h'. a < length (dicts st)"
      using ok old by (auto simp: heap_ok_def)
    have e: "map role t = map role (map (\<lambda>a. dicts st ! a) h')"
      unfolding h'(2) by (rule roles_transfer[OF inr s(4)])
    have "system_only_first (map (\<lambda>a. dicts st ! a) h')"
      using assms(1) old by (auto simp: store_inv_def transcript_Some)
    then show ?thesis using system_only_first_roles[OF e] by blast
  qed
  then show ?thesis using s(1,2) by (simp add: store_inv_def)
qed

lemma inv_generate:
  assumes "store_inv st" "generate_chat_stream_with_session LlamaGroq key st p = Some (st', evs, e)"
  shows "store_inv st'"
  using assms
  by (auto simp: generate_chat_stream_with_session_def Let_def
      split: if_splits sum.splits option.splits prod.splits
      dest: inv_assemble inv_persist)

lemma inv_chat:
  assumes "store_inv st" "chat_route_post LlamaGroq key st p = Some (st', evs, e)"
  shows "store_inv st'"
  using assms
  by (auto simp: chat_route_post_def split: if_splits option.splits
      dest: inv_initialize inv_generate)

lemma reachable_inv: "reachable st \<Longrightarrow> store_inv st"
proof (induction rule: reachable.induct)
  case r_empty
  show ?case by (rule inv_empty)
next
  case (r_create st uuid st' r)
  then show ?case by (blast intro: inv_create)
next
  case (r_initialize st sid st' u)
  then show ?case by (blast intro: inv_initialize)
next
  case (r_clear st data st' r)
  then show ?case by (blast intro: inv_clear)
next
  case (r_chat st LlamaGroq key p st' evs e)
  then show ?case by (blast intro: inv_chat)
next
  case (r_assemble st sid sp st' msgs)
  then show ?case by (blast intro: inv_assemble)
next
  case (r_persist st sid sp up full st' u)
  then show ?case by (blast intro: inv_persist)
qed

lemma reachable_lock_free: "reachable st \<Longrightarrow> \<not> history_lock st"
  using reachable_inv by (auto simp: store_inv_def)

text \<open>
  A session that the store knows is cleared by the route, and clearing it again changes
  nothing; both calls answer with success.
\<close>

lemma clear_known_twice:
  assumes "\<not> history_lock st" "session_histories st sid = Some h" "sid \<noteq> []"
  shows "clear_backend_history_route st (Some sid) =
           Some (st\<lparr>session_histories := (session_histories st)(sid \<mapsto> [])\<rparr>,
                 \<lparr>http_status = 200, status = ''success'',
                  message = ''Backend chat history cleared for this session.''\<rparr>)
       \<and> clear_backend_history_route
             (st\<lparr>session_histories := (session_histories st)(sid \<mapsto> [])\<rparr>) (Some sid) =
           Some (st\<lparr>session_histories := (session_histories st)(sid \<mapsto> [])\<rparr>,
                 \<lparr>http_status = 200, status = ''success'',
                  message = ''Backend chat history cleared for this session.''\<rparr>)"
  using assms by (simp add: clear_backend_history_route_def truthy_def with_history_lock_def)

section \<open>One request, end to end\<close>

lemma system_only_first_bounds:
  assumes "system_only_first t"
  shows "length (filter (\<lambda>m. role m = SYSTEM) t) \<le> 1 \<and> (\<forall>i<length t. role (t ! i) = SYSTEM \<longrightarrow> i = 0)"
proof (cases t)
  case Nil
  then show ?thesis by simp
next
  case (Cons m ms)
  with assms have ns: "\<forall>x\<in>set ms. role x \<noteq> SYSTEM"
    by (simp add: system_only_first_def list_all_iff)
  then have "filter (\<lambda>m. role m = SYSTEM) ms = []" by (simp add: filter_empty_conv)
  moreover have "i = 0" if "i < length t" "role (t ! i) = SYSTEM" for i
  proof (cases i)
    case 0
    then show ?thesis .
  next
    case (Suc j)
    with that Cons have "j < length ms" "role (ms ! j) = SYSTEM" by simp_all
    with ns show ?thesis using nth_mem by blast
  qed
  ultimately show ?thesis using Cons by auto
qed

lemma chat_route_ensures:
  assumes "\<not> history_lock st" "p_session_id p = Some sid" "sid \<noteq> []"
  shows "chat_route_post LlamaGroq key st p =
     generate_chat_stream_with_session LlamaGroq key (ensured st sid) p"
  using assms by (simp add: chat_route_post_def truthy_def initialize_free)

lemma persist_total_known:
  assumes "\<not> history_lock st" "session_histories st sid = Some h"
  shows "\<exists>st'. with_history_lock (persist_exchange sid sp up full) st = Some (st', ())
           \<and> \<not> history_lock st' \<and> session_histories st' sid \<noteq> None"
proof -
  consider (ins) "sp \<noteq> []" "h = [] \<or> role (dicts st ! hd h) \<noteq> SYSTEM"
    | (rep) "sp \<noteq> []" "h \<noteq> []" "role (dicts st ! hd h) = SYSTEM" "content (dicts st ! hd h) \<noteq> sp"
    | (keep) "sp = [] \<or> (h \<noteq> [] \<and> role (dicts st ! hd h) = SYSTEM \<and> content (dicts st ! hd h) = sp)"
    by blast
  then show ?thesis
  proof cases
    case ins
    show ?thesis unfolding persist_insert[OF assms ins] using assms(1) by simp
  next
    case rep
    show ?thesis unfolding persist_replace[OF assms rep] using assms(1) by simp
  next
    case keep
    show ?thesis unfolding persist_keep[OF assms keep] using assms(1) by simp
  qed
qed

lemma inv_ensured: "store_inv st \<Longrightarrow> store_inv (ensured st sid)"
  by (auto simp: store_inv_def heap_ok_def transcript_def system_only_first_def split: if_splits)

lemma history_of_ensured: "history_of (ensured st sid) x = history_of st x"
  by (auto simp: history_of_def transcript_def split: option.splits)

lemma history_of_transcript: "transcript st sid = Some t \<Longrightarrow> history_of st sid = t"
  by (simp add: history_of_def)

lemma transcript_ensured:
  "transcript (ensured st sid) sid = Some (history_of st sid)"
  by (auto simp: history_of_def transcript_def split: option.splits)

lemma persist_blank:
  assumes "\<not> history_lock st" "heap_ok st" "transcript st sid = Some t"
  shows "\<exists>st'. with_history_lock (persist_exchange sid [] up full) st = Some (st', ())
     \<and> transcript st' sid = Some (t @ [\<lparr>role = USER, content = up\<rparr>, \<lparr>role = ASSISTANT, content = full\<rparr>])"
proof -
  from assms(3) obtain h where h: "session_histories st sid = Some h" "t = map (\<lambda>a. dicts st ! a) h"
    by (auto simp: transcript_Some)
  from persist_result[OF assms(1,2) h(1), of "[]" up full] h(2) show ?thesis by auto
qed

lemma persist_after_system:
  assumes "\<not> history_lock st" "heap_ok st"
    "transcript st sid = Some (\<lparr>role = SYSTEM, content = sp\<rparr> # rest)" "sp \<noteq> []"
  shows "\<exists>st'. with_history_lock (persist_exchange sid sp up full) st = Some (st', ())
     \<and> transcript st' sid = Some (\<lparr>role = SYSTEM, content = sp\<rparr> # rest
          @ [\<lparr>role = USER, content = up\<rparr>, \<lparr>role = ASSISTANT, content = full\<rparr>])"
proof -
  from assms(3) obtain h where h: "session_histories st sid = Some h"
    "\<lparr>role = SYSTEM, content = sp\<rparr> # rest = map (\<lambda>a. dicts st ! a) h"
    by (auto simp: transcript_Some)
  then obtain a r where ar: "h = a # r" "dicts st ! a = \<lparr>role = SYSTEM, content = sp\<rparr>"
    "rest = map (\<lambda>a. dicts st ! a) r" by (cases h) auto
  have same: "(dicts st)[a := (dicts st ! a)\<lparr>content := sp\<rparr>] = dicts st"
    by (rule update_same_content) (simp add: ar(2))
  from persist_result[OF assms(1,2) h(1), of sp up full] ar same assms(4)
  show ?thesis by auto
qed

lemma assemble_known_system:
  assumes "\<not> history_lock st" "heap_ok st"
    "transcript st sid = Some (\<lparr>role = SYSTEM, content = A\<rparr> # rest)"
    "list_all (\<lambda>m. role m \<noteq> SYSTEM) rest" "sp \<noteq> []"
  shows "\<exists>st1. with_history_lock (assemble_messages sid sp) st =
            Some (st1, ChatMessage SYSTEM sp # map (\<lambda>d. ChatMessage (role d) (content d)) rest)
       \<and> \<not> history_lock st1 \<and> heap_ok st1
       \<and> transcript st1 sid = Some (\<lparr>role = SYSTEM, content = sp\<rparr> # rest)"
proof -
  from assms(3) obtain h where h: "session_histories st sid = Some h"
    "\<lparr>role = SYSTEM, content = A\<rparr> # rest = map (\<lambda>a. dicts st ! a) h"
    by (auto simp: transcript_Some)
  then obtain a r where ar: "h = a # r" "dicts st ! a = \<lparr>role = SYSTEM, content = A\<rparr>"
    "rest = map (\<lambda>a. dicts st ! a) r" by (cases h) auto
  have al: "a < length (dicts st)" using assms(2) h(1) ar(1) by (auto simp: heap_ok_def)
  have nr: "\<forall>b\<in>set r. role (dicts st ! b) \<noteq> SYSTEM"
    using assms(4) ar(3) by (simp add: list_all_iff)
  then have anr: "a \<notin> set r" using ar(2) by auto
  have hist: "history_of st sid = \<lparr>role = SYSTEM, content = A\<rparr> # rest"
    using assms(3) by (rule history_of_transcript)
  have flt: "filter (\<lambda>d. role d \<noteq> SYSTEM) (history_of st sid) = rest"
    using assms(4) by (simp add: hist list_all_iff)
  from assemble_messages_system[OF assms(1,5), of sid] flt
  obtain st1 where a1: "with_history_lock (assemble_messages sid sp) st =
       Some (st1, ChatMessage SYSTEM sp # map (\<lambda>d. ChatMessage (role d) (content d)) rest)"
    by auto
  have st1: "st1 = (if A = sp then st else st\<lparr>dicts := (dicts st)[a := (dicts st ! a)\<lparr>content := sp\<rparr>]\<rparr>)"
    using a1 assms(1,5) h(1) ar(1,2)
    by (auto simp: with_history_lock_def assemble_messages_def Let_def split: if_splits)
  have rest': "map (\<lambda>b. (dicts st)[a := x] ! b) r = map (\<lambda>b. dicts st ! b) r" for x
    using anr by (induction r) auto
  have "\<not> history_lock st1" using st1 assms(1) by simp
  moreover have "heap_ok st1" using st1 assms(2) by (auto simp: heap_ok_def)
  moreover have "transcript st1 sid = Some (\<lparr>role = SYSTEM, content = sp\<rparr> # rest)"
    using st1 h(1) ar al rest' by (auto simp: transcript_def)
  ultimately show ?thesis using a1 by blast
qed

lemma concat_emitted:
  "concat (emitted ds) = concat (map (\<lambda>d. case d of None \<Rightarrow> [] | Some s \<Rightarrow> s) ds)"
  by (induction ds) (auto simp: truthy_def split: option.splits)

lemma assemble_ignores_lock:
  "map_option snd (assemble_messages sid sp (st\<lparr>history_lock := b\<rparr>))
   = map_option snd (assemble_messages sid sp st)"
  by (simp add: assemble_messages_def Let_def split: option.splits)

lemma assemble_gives_messages:
  assumes "with_history_lock (assemble_messages sid sp) st = Some (st1, msgs)"
  shows "msgs @ [ChatMessage USER up] = messages_for_llm st sid sp up"
proof -
  from assms have "map_option snd (assemble_messages sid sp (st\<lparr>history_lock := True\<rparr>)) = Some msgs"
    by (auto simp: with_history_lock_def split: if_splits option.splits)
  then have "map_option snd (assemble_messages sid sp st) = Some msgs"
    by (simp only: assemble_ignores_lock)
  then show ?thesis by (auto simp: messages_for_llm_def)
qed

lemma generate_raises:
  "system_prompt_text_of p = Inl e \<Longrightarrow>
     generate_chat_stream_with_session LlamaGroq key st p = Some (st, [], Raised e)"
  "system_prompt_text_of p = Inr sp \<Longrightarrow> temperature_of p = Inl e \<Longrightarrow>
     generate_chat_stream_with_session LlamaGroq key st p = Some (st, [], Raised e)"
  by (simp_all add: generate_chat_stream_with_session_def)

lemma generate_validates:
  assumes "system_prompt_text_of p = Inr sp" "temperature_of p = Inr t"
  shows "\<not> truthy (p_session_id p) \<Longrightarrow>
     generate_chat_stream_with_session LlamaGroq key st p =
       Some (st, [ErrorEvent ''session_id is required for backend history'' True], Returned)"
    and "truthy (p_session_id p) \<Longrightarrow> \<not> truthy (p_prompt p) \<Longrightarrow>
     generate_chat_stream_with_session LlamaGroq key st p =
       Some (st, [ErrorEvent ''Prompt is required'' True], Returned)"
    and "truthy (p_session_id p) \<Longrightarrow> truthy (p_prompt p) \<Longrightarrow> \<not> truthy key \<Longrightarrow>
     generate_chat_stream_with_session LlamaGroq key st p =
       Some (st, [ErrorEvent ''GROQ_API_KEY not configured on server.'' True], Returned)"
    and "truthy (p_session_id p) \<Longrightarrow> truthy (p_prompt p) \<Longrightarrow> truthy key \<Longrightarrow>
       LlamaGroq (model_id_of p) (the key) = Inl e \<Longrightarrow>
     generate_chat_stream_with_session LlamaGroq key st p =
       Some (st, [ErrorEvent (''LLM Error: '' @ e) True], Returned)"
  using assms by (simp_all add: generate_chat_stream_with_session_def)

lemma chat_run:
  assumes "\<not> history_lock st" "p_session_id p = Some sid" "sid \<noteq> []"
    "system_prompt_text_of p = Inr sp" "temperature_of p = Inr t"
    "p_prompt p = Some up" "up \<noteq> []" "key = Some k" "k \<noteq> []"
    "LlamaGroq (model_id_of p) k = Inr llm"
    "with_history_lock (assemble_messages sid sp) (ensured st sid) = Some (st1, msgs)"
    "llm (msgs @ [ChatMessage USER up]) t = (deltas, raised)"
  shows "chat_route_post LlamaGroq key st p =
     (case raised of
        Some e \<Rightarrow> Some (st1, map (\<lambda>d. TextChunk d False) (emitted deltas)
                              @ [ErrorEvent (''LLM Error: '' @ e) True], Returned)
      | None \<Rightarrow>
          (case with_history_lock (persist_exchange sid sp up (concat (emitted deltas))) st1 of
             None \<Rightarrow> None
           | Some (st2, u) \<Rightarrow> Some (st2, map (\<lambda>d. TextChunk d False) (emitted deltas)
                                  @ [FullResponse (concat (emitted deltas)) True], Returned)))"
  unfolding chat_route_ensures[OF assms(1-3)]
  using assms(2-12)
  by (simp add: generate_chat_stream_with_session_def truthy_def Let_def consume_eq
      split: option.splits)

text \<open>Every way a request with a session id can end.\<close>

lemma chat_cases:
  assumes "\<not> history_lock st" "p_session_id p = Some sid" "sid \<noteq> []"
    "chat_route_post LlamaGroq key st p = Some (st', evs, ending)"
  shows "(st' = ensured st sid \<and> evs = [] \<and> (\<exists>e. ending = Raised e)
            \<and> (\<forall>sp t. system_prompt_text_of p = Inr sp \<longrightarrow> temperature_of p \<noteq> Inr t))
       \<or> (st' = ensured st sid \<and> ending = Returned \<and> (\<exists>msg. evs = [ErrorEvent msg True]))
       \<or> (ending = Returned \<and> (\<exists>sp t up k llm st1 msgs deltas raised.
            system_prompt_text_of p = Inr sp \<and> temperature_of p = Inr t
            \<and> p_prompt p = Some up \<and> up \<noteq> [] \<and> key = Some k \<and> k \<noteq> []
            \<and> LlamaGroq (model_id_of p) k = Inr llm
            \<and> with_history_lock (assemble_messages sid sp) (ensured st sid) = Some (st1, msgs)
            \<and> llm (msgs @ [ChatMessage USER up]) t = (deltas, raised)
            \<and> (case raised of
                  Some e \<Rightarrow> st' = st1
                    \<and> evs = map (\<lambda>d. TextChunk d False) (emitted deltas)
                            @ [ErrorEvent (''LLM Error: '' @ e) True]
                | None \<Rightarrow>
                    with_history_lock (persist_exchange sid sp up (concat (emitted deltas))) st1
                      = Some (st', ())
                    \<and> evs = map (\<lambda>d. TextChunk d False) (emitted deltas)
                            @ [FullResponse (concat (emitted deltas)) True])))"
proof -
  note r = chat_route_ensures[OF assms(1-3)]
  note g = assms(4)[unfolded r]
  have st: "truthy (p_session_id p)" using assms(2,3) by (simp add: truthy_def)
  show ?thesis
  proof (cases "system_prompt_text_of p")
    case (Inl e)
    show ?thesis using g generate_raises(1)[OF Inl] Inl by auto
  next
    case sp: (Inr sp)
    show ?thesis
    proof (cases "temperature_of p")
      case (Inl e)
      show ?thesis using g generate_raises(2)[OF sp Inl] sp Inl by auto
    next
      case t: (Inr t)
      note v = generate_validates[OF sp t]
      show ?thesis
      proof (cases "truthy (p_prompt p) \<and> truthy key")
        case False
        then consider "\<not> truthy (p_prompt p)" | "truthy (p_prompt p)" "\<not> truthy key" by blast
        then show ?thesis
        proof cases
          case 1
          show ?thesis using g v(2)[OF st 1] by auto
        next
          case 2
          show ?thesis using g v(3)[OF st 2] by auto
        qed
      next
        case True
        then obtain up k where up: "p_prompt p = Some up" "up \<noteq> []" and k: "key = Some k" "k \<noteq> []"
          by (auto simp: truthy_def split: option.splits)
        show ?thesis
        proof (cases "LlamaGroq (model_id_of p) k")
          case (Inl e)
          have tp: "truthy (p_prompt p)" and tk: "truthy key" using True by simp_all
          have "LlamaGroq (model_id_of p) (the key) = Inl e" using Inl k by simp
          from v(4)[where LlamaGroq = LlamaGroq and key = key, OF st tp tk this] g
          show ?thesis by auto
        next
          case (Inr llm)
          have fl: "\<not> history_lock (ensured st sid)" using assms(1) by simp
          from assemble_shape[OF fl, of sid sp]
          obtain st1 msgs where a: "with_history_lock (assemble_messages sid sp) (ensured st sid) = Some (st1, msgs)"
            by blast
          obtain deltas raised where d: "llm (msgs @ [ChatMessage USER up]) t = (deltas, raised)"
            by (cases "llm (msgs @ [ChatMessage USER up]) t") auto
          note run = chat_run[where LlamaGroq = LlamaGroq and llm = llm, OF assms(1-3) sp t up k Inr a d]
          have "ending = Returned \<and> (case raised of
                  Some e \<Rightarrow> st' = st1
                    \<and> evs = map (\<lambda>d. TextChunk d False) (emitted deltas)
                            @ [ErrorEvent (''LLM Error: '' @ e) True]
                | None \<Rightarrow>
                    with_history_lock (persist_exchange sid sp up (concat (emitted deltas))) st1
                      = Some (st', ())
                    \<and> evs = map (\<lambda>d. TextChunk d False) (emitted deltas)
                            @ [FullResponse (concat (emitted deltas)) True])"
            using assms(4) run by (auto split: option.splits)
          then show ?thesis using sp t up k Inr a d by blast
        qed
      qed
    qed
  qed
qed

lemma chat_success:
  assumes "\<not> history_lock st" "chat_route_post LlamaGroq key st p = Some (st', evs, ending)"
    "FullResponse full fin \<in> set evs"
  shows "\<exists>sid sp t up k llm st1 msgs deltas.
     p_session_id p = Some sid \<and> sid \<noteq> []
     \<and> system_prompt_text_of p = Inr sp \<and> temperature_of p = Inr t
     \<and> p_prompt p = Some up \<and> up \<noteq> []
     \<and> key = Some k \<and> k \<noteq> [] \<and> LlamaGroq (model_id_of p) k = Inr llm
     \<and> with_history_lock (assemble_messages sid sp) (ensured st sid) = Some (st1, msgs)
     \<and> llm (msgs @ [ChatMessage USER up]) t = (deltas, None)
     \<and> with_history_lock (persist_exchange sid sp up (concat (emitted deltas))) st1 = Some (st', ())
     \<and> evs = map (\<lambda>d. TextChunk d False) (emitted deltas) @ [FullResponse (concat (emitted deltas)) True]
     \<and> full = concat (emitted deltas) \<and> fin \<and> ending = Returned"
proof -
  have sidt: "truthy (p_session_id p)"
  proof (rule ccontr)
    assume n: "\<not> truthy (p_session_id p)"
    then have "chat_route_post LlamaGroq key st p = generate_chat_stream_with_session LlamaGroq key st p"
      by (simp add: chat_route_post_def)
    with assms(2,3) n show False
      by (cases "system_prompt_text_of p"; cases "temperature_of p")
         (auto simp: generate_raises generate_validates(1))
  qed
  then obtain sid where sid: "p_session_id p = Some sid" "sid \<noteq> []"
    by (auto simp: truthy_def split: option.splits)
  from chat_cases[OF assms(1) sid assms(2)] assms(3)
  obtain sp t up k llm st1 msgs deltas raised where
    c: "system_prompt_text_of p = Inr sp" "temperature_of p = Inr t"
       "p_prompt p = Some up" "up \<noteq> []" "key = Some k" "k \<noteq> []"
       "LlamaGroq (model_id_of p) k = Inr llm"
       "with_history_lock (assemble_messages sid sp) (ensured st sid) = Some (st1, msgs)"
       "llm (msgs @ [ChatMessage USER up]) t = (deltas, raised)"
       "case raised of
                  Some e \<Rightarrow> st' = st1
                    \<and> evs = map (\<lambda>d. TextChunk d False) (emitted deltas)
                            @ [ErrorEvent (''LLM Error: '' @ e) True]
                | None \<Rightarrow>
                    with_history_lock (persist_exchange sid sp up (concat (emitted deltas))) st1
                      = Some (st', ())
                    \<and> evs = map (\<lambda>d. TextChunk d False) (emitted deltas)
                            @ [FullResponse (concat (emitted deltas)) True]"
       "ending = Returned"
    by auto
  have rn: "raised = None" using c(10) assms(3) by (cases raised) auto
  have "evs = map (\<lambda>d. TextChunk d False) (emitted deltas) @ [FullResponse (concat (emitted deltas)) True]"
    using c(10) rn by simp
  moreover from this assms(3) have "full = concat (emitted deltas) \<and> fin" by auto
  ultimately show ?thesis using sid c rn by auto
qed



lemma strip_once:
  "chat_route_post LlamaGroq key st (p\<lparr>p_system_prompt := Some (JStr x)\<rparr>)
   = chat_route_post LlamaGroq key st (p\<lparr>p_system_prompt := Some (JStr (strip x))\<rparr>)"
proof -
  have g: "generate_chat_stream_with_session LlamaGroq key st1 (p\<lparr>p_system_prompt := Some (JStr x)\<rparr>)
      = generate_chat_stream_with_session LlamaGroq key st1 (p\<lparr>p_system_prompt := Some (JStr (strip x))\<rparr>)"
    for st1
    by (simp add: generate_chat_stream_with_session_def py_strip_def strip_idem
        cong: sum.case_cong)
  show ?thesis
    by (simp add: chat_route_post_def g split: option.splits prod.splits)
qed

section \<open>Failure of the collaborator\<close>

text \<open>
  Claim C1. A chat request whose stream raises after partial deltas should leave the
  stored transcript exactly as it was. Session \<open>s1\<close> holds the system message \<open>A\<close>;
  the request brings the system prompt \<open>B\<close> and the stream raises after one delta. The
  request ends with one error event, and no user or assistant message is stored, but
  the stored system message now reads \<open>B\<close>: line 105 wrote through the shallow copy
  into the dict that the store holds.
\<close>

theorem failed_stream_rewrites_stored_system_message:
  "transcript demo_store ''s1'' =
     Some [\<lparr>role = SYSTEM, content = ''A''\<rparr>, \<lparr>role = USER, content = ''hi''\<rparr>,
           \<lparr>role = ASSISTANT, content = ''yo''\<rparr>]
   \<and> chat_route_post (stub_groq ([Some ''He''], Some ''boom'')) (Some ''k'')
        demo_store (chat_request ''s1'' ''x'' ''B'')
     = Some (demo_store\<lparr>dicts := [\<lparr>role = SYSTEM, content = ''B''\<rparr>,
                                    \<lparr>role = USER, content = ''hi''\<rparr>,
                                    \<lparr>role = ASSISTANT, content = ''yo''\<rparr>]\<rparr>,
             [TextChunk ''He'' False, ErrorEvent ''LLM Error: boom'' True], Returned)
   \<and> transcript (demo_store\<lparr>dicts := [\<lparr>role = SYSTEM, content = ''B''\<rparr>,
                                       \<lparr>role = USER, content = ''hi''\<rparr>,
                                       \<lparr>role = ASSISTANT, content = ''yo''\<rparr>]\<rparr>) ''s1''
     = Some [\<lparr>role = SYSTEM, content = ''B''\<rparr>, \<lparr>role = USER, content = ''hi''\<rparr>,
             \<lparr>role = ASSISTANT, content = ''yo''\<rparr>]"
  by (simp add: chat_route_post_def generate_chat_stream_with_session_def chat_request_def
      stub_groq_def demo_store_def truthy_def strip_def isspace_def transcript_def
      py_strip_def py_float_def
      initialize_session_history_def with_history_lock_def assemble_messages_def Let_def)

section \<open>Clearing a session\<close>

text \<open>
  Claim C8. Clearing a session twice should leave it as clearing it once does, an empty
  transcript under that id, created if the id is unknown, with both calls reporting
  success. For an id that the store does not know, the route calls
  \<open>initialize_session_history\<close> while it holds \<open>history_lock\<close>; the lock is not
  reentrant, so the call waits for the lock for ever and the route never answers.
\<close>

theorem clear_unknown_session_never_returns:
  "clear_backend_history_route empty_store (Some ''abc'') = None"
  by (simp add: clear_backend_history_route_def empty_store_def truthy_def
      with_history_lock_def initialize_session_history_def)

section \<open>The transcript invariant on reachable stores\<close>

text \<open>
  Claim C2. In every reachable store, and so after every initialise, clear, assembly and
  commit step, the transcript of every session holds at most one message of role
  \<open>system\<close>, and a message of that role stands at index 0. Message order is insertion
  order: a commit on such a store returns, and the messages of the turns stand in the
  new transcript as before, in the same order, followed by the new user message and
  then the new assistant message.
\<close>

theorem transcript_invariant_reachable:
  assumes "reachable st" "transcript st session_id = Some t"
  shows "length (filter (\<lambda>m. role m = SYSTEM) t) \<le> 1
       \<and> (\<forall>i<length t. role (t ! i) = SYSTEM \<longrightarrow> i = 0)
       \<and> (\<exists>st' t'. with_history_lock (persist_exchange session_id sp up full) st = Some (st', ())
            \<and> transcript st' session_id = Some t'
            \<and> filter (\<lambda>m. role m \<noteq> SYSTEM) t'
                = filter (\<lambda>m. role m \<noteq> SYSTEM) t
                  @ [\<lparr>role = USER, content = up\<rparr>, \<lparr>role = ASSISTANT, content = full\<rparr>])"
proof -
  have inv: "store_inv st" using assms(1) by (rule reachable_inv)
  then have free: "\<not> history_lock st" and ok: "heap_ok st" and sf: "system_only_first t"
    using assms(2) by (auto simp: store_inv_def)
  from assms(2) obtain h where h: "session_histories st session_id = Some h"
    "t = map (\<lambda>a. dicts st ! a) h" by (auto simp: transcript_Some)
  from persist_result[OF free ok h(1), of sp up full]
  obtain st' where p: "with_history_lock (persist_exchange session_id sp up full) st = Some (st', ())"
    and t': "transcript st' session_id = Some (
          (if sp \<noteq> [] \<and> (h = [] \<or> role (dicts st ! hd h) \<noteq> SYSTEM)
           then [\<lparr>role = SYSTEM, content = sp\<rparr>] else [])
          @ map (\<lambda>b. (if sp \<noteq> [] \<and> h \<noteq> [] \<and> role (dicts st ! hd h) = SYSTEM
                       then (dicts st)[hd h := (dicts st ! hd h)\<lparr>content := sp\<rparr>]
                       else dicts st) ! b) h
          @ [\<lparr>role = USER, content = up\<rparr>, \<lparr>role = ASSISTANT, content = full\<rparr>])"
    by blast
  have "filter (\<lambda>m. role m \<noteq> SYSTEM) (the (transcript st' session_id))
      = filter (\<lambda>m. role m \<noteq> SYSTEM) t
        @ [\<lparr>role = USER, content = up\<rparr>, \<lparr>role = ASSISTANT, content = full\<rparr>]"
    unfolding t' h(2) by (simp add: filter_update_content)
  with p t' have "\<exists>st' t'. with_history_lock (persist_exchange session_id sp up full) st = Some (st', ())
            \<and> transcript st' session_id = Some t'
            \<and> filter (\<lambda>m. role m \<noteq> SYSTEM) t'
                = filter (\<lambda>m. role m \<noteq> SYSTEM) t
                  @ [\<lparr>role = USER, content = up\<rparr>, \<lparr>role = ASSISTANT, content = full\<rparr>]"
    by (metis option.sel)
  then show ?thesis using system_only_first_bounds[OF sf] by blast
qed

theorem transcript_invariant_reachable_witness:
  "reachable demo_store
   \<and> transcript demo_store ''s1'' =
       Some [\<lparr>role = SYSTEM, content = ''A''\<rparr>, \<lparr>role = USER, content = ''hi''\<rparr>,
             \<lparr>role = ASSISTANT, content = ''yo''\<rparr>]
   \<and> length (filter (\<lambda>m. role m = SYSTEM)
        [\<lparr>role = SYSTEM, content = ''A''\<rparr>, \<lparr>role = USER, content = ''hi''\<rparr>,
         \<lparr>role = ASSISTANT, content = ''yo''\<rparr>]) \<le> 1
   \<and> (\<exists>st' t'. with_history_lock (persist_exchange ''s1'' ''B'' ''x'' ''ok'') demo_store = Some (st', ())
        \<and> transcript st' ''s1'' = Some t'
        \<and> filter (\<lambda>m. role m \<noteq> SYSTEM) t' =
            [\<lparr>role = USER, content = ''hi''\<rparr>, \<lparr>role = ASSISTANT, content = ''yo''\<rparr>,
             \<lparr>role = USER, content = ''x''\<rparr>, \<lparr>role = ASSISTANT, content = ''ok''\<rparr>])"
  using transcript_invariant_reachable[OF demo_store_reachable demo_transcript, of "''B''" "''x''" "''ok''"]
    demo_store_reachable demo_transcript
  by simp

section \<open>The event sequence of a request\<close>




section \<open>Validation\<close>

text \<open>
  Claim C6, as amended. Let the \<open>system_prompt\<close> of a chat request be absent or a
  string, and let \<open>float\<close> accept its \<open>temperature\<close>, if it has one. If its
  \<open>session_id\<close> is missing or empty, the request returns with the single event
  \<open>error: session_id is required for backend history\<close>, final, and leaves the store as
  it was. If its \<open>session_id\<close> is not empty and its prompt is missing or empty, it
  returns with the single final event \<open>error: Prompt is required\<close>; the store differs
  only by the empty session that the route has created, no dict is created and every
  history reads as before. Neither result depends on the collaborator or on the API key,
  and in both the generator returns: no exception leaves it.
\<close>

theorem validation_error_events:
  assumes "system_prompt_text_of p = Inr sp" "temperature_of p = Inr t"
  shows "(\<not> truthy (p_session_id p) \<longrightarrow>
      chat_route_post LlamaGroq key st p =
        Some (st, [ErrorEvent ''session_id is required for backend history'' True], Returned))
   \<and> (\<not> history_lock st \<and> p_session_id p = Some sid \<and> sid \<noteq> [] \<and> \<not> truthy (p_prompt p) \<longrightarrow>
      chat_route_post LlamaGroq key st p =
        Some (ensured st sid, [ErrorEvent ''Prompt is required'' True], Returned)
      \<and> dicts (ensured st sid) = dicts st
      \<and> (\<forall>x. history_of (ensured st sid) x = history_of st x))"
proof (intro conjI impI)
  assume n: "\<not> truthy (p_session_id p)"
  then show "chat_route_post LlamaGroq key st p =
        Some (st, [ErrorEvent ''session_id is required for backend history'' True], Returned)"
    using generate_validates(1)[OF assms n] by (simp add: chat_route_post_def)
next
  assume a: "\<not> history_lock st \<and> p_session_id p = Some sid \<and> sid \<noteq> [] \<and> \<not> truthy (p_prompt p)"
  then have ts: "truthy (p_session_id p)" by (simp add: truthy_def)
  from a show "chat_route_post LlamaGroq key st p =
        Some (ensured st sid, [ErrorEvent ''Prompt is required'' True], Returned)"
    using generate_validates(2)[OF assms ts] by (simp add: chat_route_ensures)
  show "dicts (ensured st sid) = dicts st" by simp
  show "\<forall>x. history_of (ensured st sid) x = history_of st x"
    by (simp add: history_of_ensured)
qed

theorem validation_error_events_witness:
  "system_prompt_text_of anonymous_request = Inr []
   \<and> temperature_of anonymous_request = Inr (Float (JReal (7 / 10)))
   \<and> \<not> truthy (p_session_id anonymous_request)
   \<and> chat_route_post (stub_groq ([Some ''yo''], None)) (Some ''k'') demo_store anonymous_request =
        Some (demo_store, [ErrorEvent ''session_id is required for backend history'' True], Returned)
   \<and> system_prompt_text_of (chat_request ''s2'' '''' ''A'') = Inr ''A''
   \<and> temperature_of (chat_request ''s2'' '''' ''A'') = Inr (Float (JReal (7 / 10)))
   \<and> \<not> history_lock demo_store \<and> p_session_id (chat_request ''s2'' '''' ''A'') = Some ''s2''
   \<and> ''s2'' \<noteq> [] \<and> \<not> truthy (p_prompt (chat_request ''s2'' '''' ''A''))
   \<and> chat_route_post (stub_groq ([Some ''yo''], None)) (Some ''k'') demo_store (chat_request ''s2'' '''' ''A'') =
        Some (ensured demo_store ''s2'', [ErrorEvent ''Prompt is required'' True], Returned)
   \<and> history_of (ensured demo_store ''s2'') ''s2'' = []"
proof -
  have s1: "system_prompt_text_of anonymous_request = Inr []"
    by (simp add: anonymous_request_def py_strip_def strip_def)
  have t1: "temperature_of anonymous_request = Inr (Float (JReal (7 / 10)))"
    by (simp add: anonymous_request_def py_float_def)
  have a: "\<not> truthy (p_session_id anonymous_request)"
    by (simp add: anonymous_request_def truthy_def)
  have s2: "system_prompt_text_of (chat_request ''s2'' '''' ''A'') = Inr ''A''"
    by (simp add: chat_request_def py_strip_def strip_def isspace_def)
  have t2: "temperature_of (chat_request ''s2'' '''' ''A'') = Inr (Float (JReal (7 / 10)))"
    by (simp add: chat_request_def py_float_def)
  have b: "\<not> history_lock demo_store \<and> p_session_id (chat_request ''s2'' '''' ''A'') = Some ''s2''
     \<and> ''s2'' \<noteq> [] \<and> \<not> truthy (p_prompt (chat_request ''s2'' '''' ''A''))"
    by (simp add: demo_store_def chat_request_def truthy_def)
  have c: "history_of demo_store ''s2'' = []"
    by (simp add: history_of_def transcript_def demo_store_def)
  from validation_error_events[OF s1 t1, of "stub_groq ([Some ''yo''], None)" "Some ''k''"
      demo_store "''s2''"] a
  have 1: "chat_route_post (stub_groq ([Some ''yo''], None)) (Some ''k'') demo_store anonymous_request =
        Some (demo_store, [ErrorEvent ''session_id is required for backend history'' True], Returned)"
    by blast
  from validation_error_events[OF s2 t2, of "stub_groq ([Some ''yo''], None)" "Some ''k''"
      demo_store "''s2''"] b c
  have 2: "chat_route_post (stub_groq ([Some ''yo''], None)) (Some ''k'') demo_store (chat_request ''s2'' '''' ''A'') =
        Some (ensured demo_store ''s2'', [ErrorEvent ''Prompt is required'' True], Returned)
      \<and> history_of (ensured demo_store ''s2'') ''s2'' = []"
    by metis
  from s1 t1 a s2 t2 b 1 2 show ?thesis by blast
qed

text \<open>
  The claim as stated gives the first message as \<open>session_id is required\<close>, while the
  generator's text is longer; and it speaks of every request without a session id, while
  one whose temperature is the integer \<open>10 ^ 309\<close> raises on line 69 and has no event.
\<close>

theorem validation_message_counterexample:
  "chat_route_post (stub_groq ([Some ''yo''], None)) (Some ''k'') empty_store anonymous_request
     = Some (empty_store, [ErrorEvent ''session_id is required for backend history'' True], Returned)
   \<and> [ErrorEvent ''session_id is required for backend history'' True]
       \<noteq> [ErrorEvent ''session_id is required'' True]
   \<and> chat_route_post (stub_groq ([Some ''yo''], None)) (Some ''k'') empty_store
       (anonymous_request\<lparr>p_temperature := Some (JInt (10 ^ 309))\<rparr>)
     = Some (empty_store, [], Raised OverflowError)"
  by (simp add: chat_route_post_def generate_chat_stream_with_session_def anonymous_request_def
      truthy_def py_strip_def py_float_def strip_def)

section \<open>The route creates the session first\<close>




section \<open>Replacing the system prompt\<close>

text \<open>
  Claim C3, as amended. Let the transcript of a session in a reachable store start with
  a system message of content \<open>A\<close>, and let a chat request for it supply as system
  prompt a string \<open>B\<close> whose stripped form \<open>strip B\<close> is not empty. If the
  collaborator, called with the outgoing list, streams to the end, then (1) the outgoing
  list is the one assembled under the lock plus the user message, it holds exactly one
  system message, with content \<open>strip B\<close>, and that message is at index 0; (2) the
  request returns with the success event, and the stored transcript is the system
  message with content \<open>strip B\<close>, the earlier messages, the user message and the
  assistant message, with no second system message.
\<close>

theorem system_prompt_replaced_once:
  assumes "reachable st"
    "transcript st sid = Some (\<lparr>role = SYSTEM, content = A\<rparr> # rest)"
    "p_session_id p = Some sid" "sid \<noteq> []" "p_prompt p = Some up" "up \<noteq> []"
    "key = Some k" "k \<noteq> []"
    "p_system_prompt p = Some (JStr B)" "strip B \<noteq> []" "temperature_of p = Inr t"
    "LlamaGroq (model_id_of p) k = Inr llm"
    "outgoing = ChatMessage SYSTEM (strip B)
                # map (\<lambda>d. ChatMessage (role d) (content d)) rest @ [ChatMessage USER up]"
    "llm outgoing t = (deltas, None)"
  shows "\<exists>st1 st'.
       with_history_lock (assemble_messages sid (strip B)) st = Some (st1, butlast outgoing)
     \<and> filter (\<lambda>m. cm_role m = SYSTEM) outgoing = [ChatMessage SYSTEM (strip B)]
     \<and> outgoing ! 0 = ChatMessage SYSTEM (strip B)
     \<and> chat_route_post LlamaGroq key st p =
         Some (st', map (\<lambda>d. TextChunk d False) (emitted deltas)
                    @ [FullResponse (concat (emitted deltas)) True], Returned)
     \<and> transcript st' sid =
         Some (\<lparr>role = SYSTEM, content = strip B\<rparr> # rest
               @ [\<lparr>role = USER, content = up\<rparr>,
                  \<lparr>role = ASSISTANT, content = concat (emitted deltas)\<rparr>])
     \<and> filter (\<lambda>m. role m = SYSTEM) (the (transcript st' sid))
         = [\<lparr>role = SYSTEM, content = strip B\<rparr>]"
proof -
  have inv: "store_inv st" using assms(1) by (rule reachable_inv)
  then have free: "\<not> history_lock st" and ok: "heap_ok st"
    and sf: "system_only_first (\<lparr>role = SYSTEM, content = A\<rparr> # rest)"
    using assms(2) by (auto simp: store_inv_def)
  have nr: "list_all (\<lambda>m. role m \<noteq> SYSTEM) rest" using sf by (simp add: system_only_first_def)
  have known: "ensured st sid = st" using assms(2) by (auto simp: transcript_def)
  from assemble_known_system[OF free ok assms(2) nr assms(10)]
  obtain st1 where a: "with_history_lock (assemble_messages sid (strip B)) st =
            Some (st1, ChatMessage SYSTEM (strip B) # map (\<lambda>d. ChatMessage (role d) (content d)) rest)"
    and s1: "\<not> history_lock st1" "heap_ok st1"
      "transcript st1 sid = Some (\<lparr>role = SYSTEM, content = strip B\<rparr> # rest)"
    by blast
  from persist_after_system[OF s1 assms(10), of up "concat (emitted deltas)"]
  obtain st' where p': "with_history_lock (persist_exchange sid (strip B) up (concat (emitted deltas))) st1
        = Some (st', ())"
    and t': "transcript st' sid = Some (\<lparr>role = SYSTEM, content = strip B\<rparr> # rest
          @ [\<lparr>role = USER, content = up\<rparr>, \<lparr>role = ASSISTANT, content = concat (emitted deltas)\<rparr>])"
    by blast
  have sp: "system_prompt_text_of p = Inr (strip B)" using assms(9) by (simp add: py_strip_def)
  have a': "with_history_lock (assemble_messages sid (strip B)) (ensured st sid) =
            Some (st1, ChatMessage SYSTEM (strip B) # map (\<lambda>d. ChatMessage (role d) (content d)) rest)"
    using a known by simp
  have d: "llm ((ChatMessage SYSTEM (strip B) # map (\<lambda>d. ChatMessage (role d) (content d)) rest)
             @ [ChatMessage USER up]) t = (deltas, None)"
    using assms(13,14) by simp
  have run: "chat_route_post LlamaGroq key st p =
         Some (st', map (\<lambda>d. TextChunk d False) (emitted deltas)
                    @ [FullResponse (concat (emitted deltas)) True], Returned)"
    using chat_run[where LlamaGroq = LlamaGroq and llm = llm,
        OF free assms(3,4) sp assms(11) assms(5,6,7,8) assms(12) a' d] p' by simp
  have f1: "filter (\<lambda>m. cm_role m = SYSTEM) (map (\<lambda>d. ChatMessage (role d) (content d)) rest) = []"
    using nr by (induction rest) auto
  have f2: "filter (\<lambda>m. role m = SYSTEM) rest = []"
    using nr by (induction rest) auto
  have o1: "filter (\<lambda>m. cm_role m = SYSTEM) outgoing = [ChatMessage SYSTEM (strip B)]"
    unfolding assms(13) using f1 by simp
  have o2: "outgoing ! 0 = ChatMessage SYSTEM (strip B)" unfolding assms(13) by simp
  have o3: "butlast outgoing = ChatMessage SYSTEM (strip B) # map (\<lambda>d. ChatMessage (role d) (content d)) rest"
    unfolding assms(13) by (simp add: butlast_append)
  have t2: "filter (\<lambda>m. role m = SYSTEM) (the (transcript st' sid)) = [\<lparr>role = SYSTEM, content = strip B\<rparr>]"
    unfolding t' using f2 by simp
  show ?thesis using a o1 o2 o3 run t' t2 by auto
qed

theorem system_prompt_replaced_once_witness:
  "reachable demo_store
   \<and> transcript demo_store ''s1'' =
       Some (\<lparr>role = SYSTEM, content = ''A''\<rparr>
             # [\<lparr>role = USER, content = ''hi''\<rparr>, \<lparr>role = ASSISTANT, content = ''yo''\<rparr>])
   \<and> strip '' B '' = ''B''
   \<and> (\<exists>st'. chat_route_post (stub_groq ([Some ''ok''], None)) (Some ''k'') demo_store
               (chat_request ''s1'' ''x'' '' B '')
             = Some (st', [TextChunk ''ok'' False, FullResponse ''ok'' True], Returned)
         \<and> transcript st' ''s1'' =
             Some [\<lparr>role = SYSTEM, content = ''B''\<rparr>, \<lparr>role = USER, content = ''hi''\<rparr>,
                   \<lparr>role = ASSISTANT, content = ''yo''\<rparr>, \<lparr>role = USER, content = ''x''\<rparr>,
                   \<lparr>role = ASSISTANT, content = ''ok''\<rparr>])"
proof -
  have t: "transcript demo_store ''s1'' =
       Some (\<lparr>role = SYSTEM, content = ''A''\<rparr>
             # [\<lparr>role = USER, content = ''hi''\<rparr>, \<lparr>role = ASSISTANT, content = ''yo''\<rparr>])"
    using demo_transcript by simp
  have s: "strip '' B '' = ''B''" by (simp add: strip_def isspace_def)
  have g: "stub_groq ([Some ''ok''], None) (model_id_of (chat_request ''s1'' ''x'' '' B '')) ''k''
     = Inr (\<lambda>messages temperature. ([Some ''ok''], None))"
    by (simp add: stub_groq_def)
  have tp: "temperature_of (chat_request ''s1'' ''x'' '' B '') = Inr (Float (JReal (7 / 10)))"
    by (simp add: chat_request_def py_float_def)
  from system_prompt_replaced_once[where LlamaGroq = "stub_groq ([Some ''ok''], None)"
      and llm = "\<lambda>messages temperature. ([Some ''ok''], None)" and key = "Some ''k''"
      and k = "''k''" and up = "''x''" and B = "'' B ''" and deltas = "[Some ''ok'']",
      OF demo_store_reachable t _ _ _ _ _ _ _ _ tp g refl]
  show ?thesis using demo_store_reachable t s
    by (auto simp: chat_request_def truthy_def)
qed

text \<open>
  As stated, with content \<open>B\<close> for every non-empty \<open>B\<close> that differs from
  \<open>A\<close>, the claim fails: the prompt \<open>" B "\<close> is stored as \<open>"B"\<close>, and the
  prompt \<open>" "\<close> is ignored, the stored system message staying \<open>A\<close>.
\<close>

theorem system_prompt_as_supplied_counterexample:
  "transcript (fst (the (chat_route_post (stub_groq ([Some ''ok''], None)) (Some ''k'') demo_store
       (chat_request ''s1'' ''x'' '' B '')))) ''s1''
     = Some [\<lparr>role = SYSTEM, content = ''B''\<rparr>, \<lparr>role = USER, content = ''hi''\<rparr>,
             \<lparr>role = ASSISTANT, content = ''yo''\<rparr>, \<lparr>role = USER, content = ''x''\<rparr>,
             \<lparr>role = ASSISTANT, content = ''ok''\<rparr>]
   \<and> ''B'' \<noteq> '' B ''
   \<and> transcript (fst (the (chat_route_post (stub_groq ([Some ''ok''], None)) (Some ''k'') demo_store
       (chat_request ''s1'' ''x'' '' '')))) ''s1''
     = Some [\<lparr>role = SYSTEM, content = ''A''\<rparr>, \<lparr>role = USER, content = ''hi''\<rparr>,
             \<lparr>role = ASSISTANT, content = ''yo''\<rparr>, \<lparr>role = USER, content = ''x''\<rparr>,
             \<lparr>role = ASSISTANT, content = ''ok''\<rparr>]
   \<and> ''A'' \<noteq> '' ''"
  by (simp add: chat_route_post_def generate_chat_stream_with_session_def chat_request_def
      stub_groq_def demo_store_def truthy_def strip_def isspace_def transcript_def
      initialize_session_history_def with_history_lock_def assemble_messages_def
      persist_exchange_def Let_def py_strip_def py_float_def)

section \<open>Accumulating the response\<close>

text \<open>
  Claim C5, as amended. Every chat request on a reachable store that has emitted the
  success event has called the collaborator with the list of lines 92 to 118, and the
  stream ended normally; the events are one chunk event, not final, for each delta that
  is neither absent nor empty, in order, followed by the success event; the generator
  returned; the \<open>full_response\<close> of that event is the in-order concatenation of those
  deltas, which is the concatenation of all deltas; and the last message of the stored
  transcript is the assistant message with that content.
\<close>

theorem full_response_accumulates:
  assumes "reachable st" "chat_route_post LlamaGroq key st p = Some (st', evs, ending)"
    "FullResponse full fin \<in> set evs"
  shows "\<exists>sid sp t up k llm deltas tr.
       p_session_id p = Some sid \<and> p_prompt p = Some up
     \<and> system_prompt_text_of p = Inr sp \<and> temperature_of p = Inr t
     \<and> LlamaGroq (model_id_of p) k = Inr llm
     \<and> llm (messages_for_llm (ensured st sid) sid sp up) t = (deltas, None)
     \<and> evs = map (\<lambda>d. TextChunk d False) (emitted deltas) @ [FullResponse full True]
     \<and> ending = Returned
     \<and> full = concat (emitted deltas)
     \<and> full = concat (map (\<lambda>d. case d of None \<Rightarrow> [] | Some s \<Rightarrow> s) deltas)
     \<and> transcript st' sid = Some (tr @ [\<lparr>role = ASSISTANT, content = full\<rparr>])"
proof -
  have inv: "store_inv st" using assms(1) by (rule reachable_inv)
  then have free: "\<not> history_lock st" by (simp add: store_inv_def)
  from chat_success[OF free assms(2,3)]
  obtain sid sp t up k llm st1 msgs deltas where
    c: "p_session_id p = Some sid" "LlamaGroq (model_id_of p) k = Inr llm"
       "system_prompt_text_of p = Inr sp" "temperature_of p = Inr t" "p_prompt p = Some up"
       "with_history_lock (assemble_messages sid sp) (ensured st sid) = Some (st1, msgs)"
       "llm (msgs @ [ChatMessage USER up]) t = (deltas, None)"
       "with_history_lock (persist_exchange sid sp up (concat (emitted deltas))) st1 = Some (st', ())"
       "evs = map (\<lambda>d. TextChunk d False) (emitted deltas) @ [FullResponse (concat (emitted deltas)) True]"
       "full = concat (emitted deltas)" "ending = Returned"
    by blast
  have m: "msgs @ [ChatMessage USER up] = messages_for_llm (ensured st sid) sid sp up"
    using c(6) by (rule assemble_gives_messages)
  have l: "llm (messages_for_llm (ensured st sid) sid sp up) t = (deltas, None)"
    using c(7) unfolding m .
  have inv1: "store_inv st1" using inv_assemble[OF inv_ensured[OF inv] c(6)] .
  then have f1: "\<not> history_lock st1" and ok1: "heap_ok st1" by (simp_all add: store_inv_def)
  from persist_Some_known[OF c(8)] obtain h where h: "session_histories st1 sid = Some h" by blast
  from persist_result[OF f1 ok1 h, of sp up "concat (emitted deltas)"] c(8)
  obtain pre where "transcript st' sid = Some (pre @ [\<lparr>role = ASSISTANT, content = concat (emitted deltas)\<rparr>])"
    by (metis (no_types, lifting) Pair_inject append.assoc append_Cons append_Nil option.inject)
  then show ?thesis using c l concat_emitted[of deltas] by blast
qed

lemma demo_hello:
  "chat_route_post (stub_groq ([Some ''Hel'', Some '''', None, Some ''lo''], None)) (Some ''k'')
      demo_store (chat_request ''s1'' ''x'' ''A'')
   = Some (demo_store\<lparr>session_histories := [''s1'' \<mapsto> [0, 1, 2, 3, 4]],
             dicts := dicts demo_store @ [\<lparr>role = USER, content = ''x''\<rparr>,
                                         \<lparr>role = ASSISTANT, content = ''Hello''\<rparr>]\<rparr>,
           [TextChunk ''Hel'' False, TextChunk ''lo'' False, FullResponse ''Hello'' True], Returned)"
  by (simp add: chat_route_post_def generate_chat_stream_with_session_def chat_request_def
      stub_groq_def demo_store_def truthy_def strip_def isspace_def py_strip_def py_float_def
      initialize_session_history_def with_history_lock_def assemble_messages_def
      persist_exchange_def Let_def eval_nat_numeral)

theorem full_response_accumulates_witness:
  "reachable demo_store
   \<and> chat_route_post (stub_groq ([Some ''Hel'', Some '''', None, Some ''lo''], None)) (Some ''k'')
        demo_store (chat_request ''s1'' ''x'' ''A'')
     = Some (demo_store\<lparr>session_histories := [''s1'' \<mapsto> [0, 1, 2, 3, 4]],
             dicts := dicts demo_store @ [\<lparr>role = USER, content = ''x''\<rparr>,
                                         \<lparr>role = ASSISTANT, content = ''Hello''\<rparr>]\<rparr>,
           [TextChunk ''Hel'' False, TextChunk ''lo'' False, FullResponse ''Hello'' True], Returned)
   \<and> FullResponse ''Hello'' True
       \<in> set [TextChunk ''Hel'' False, TextChunk ''lo'' False, FullResponse ''Hello'' True]
   \<and> (\<exists>t. transcript (demo_store\<lparr>session_histories := [''s1'' \<mapsto> [0, 1, 2, 3, 4]],
             dicts := dicts demo_store @ [\<lparr>role = USER, content = ''x''\<rparr>,
                                         \<lparr>role = ASSISTANT, content = ''Hello''\<rparr>]\<rparr>) ''s1''
          = Some (t @ [\<lparr>role = ASSISTANT, content = ''Hello''\<rparr>]))"
proof -
  have l: "FullResponse ''Hello'' True
       \<in> set [TextChunk ''Hel'' False, TextChunk ''lo'' False, FullResponse ''Hello'' True]" by simp
  from full_response_accumulates[OF demo_store_reachable demo_hello l]
  have "\<exists>t. transcript (demo_store\<lparr>session_histories := [''s1'' \<mapsto> [0, 1, 2, 3, 4]],
             dicts := dicts demo_store @ [\<lparr>role = USER, content = ''x''\<rparr>,
                                         \<lparr>role = ASSISTANT, content = ''Hello''\<rparr>]\<rparr>) ''s1''
          = Some (t @ [\<lparr>role = ASSISTANT, content = ''Hello''\<rparr>])"
    by (auto simp: chat_request_def)
  with demo_store_reachable demo_hello l show ?thesis by blast
qed

text \<open>
  As stated, with one chunk event for each delta received, the claim fails: the
  empty delta and the absent delta of this stream have no event.
\<close>

theorem empty_delta_not_emitted_counterexample:
  "chat_route_post (stub_groq ([Some ''Hel'', Some '''', None, Some ''lo''], None))
       (Some ''k'') demo_store (chat_request ''s1'' ''x'' ''A'')
     = Some (demo_store\<lparr>session_histories := [''s1'' \<mapsto> [0, 1, 2, 3, 4]],
             dicts := dicts demo_store @ [\<lparr>role = USER, content = ''x''\<rparr>,
                                         \<lparr>role = ASSISTANT, content = ''Hello''\<rparr>]\<rparr>,
           [TextChunk ''Hel'' False, TextChunk ''lo'' False, FullResponse ''Hello'' True], Returned)
   \<and> [TextChunk ''Hel'' False, TextChunk ''lo'' False]
       \<noteq> [TextChunk ''Hel'' False, TextChunk '''' False, TextChunk ''lo'' False]"
  by (simp add: chat_route_post_def generate_chat_stream_with_session_def chat_request_def
      stub_groq_def demo_store_def truthy_def strip_def isspace_def py_strip_def py_float_def
      initialize_session_history_def with_history_lock_def assemble_messages_def
      persist_exchange_def Let_def eval_nat_numeral)

section \<open>Growth of the transcript at a commit\<close>

text \<open>
  Claim C7. Let \<open>s\<close> be the system prompt of the request (empty if absent), so that
  the commit block runs with \<open>strip s\<close>. Every commit on a reachable store that
  returns lengthens the transcript of its session by 2, or by 3 when \<open>strip s\<close> is not
  empty and the transcript held no system message; it lengthens it by 3 only when
  \<open>s\<close> is not empty and no system message was stored; and when a system message was
  stored the length grows by 2 and the new transcript is the old one, its first message
  with the new content if \<open>strip s\<close> is not empty, followed by the user message and the
  assistant message.
\<close>

theorem commit_growth:
  assumes "reachable st" "transcript st sid = Some t"
    "with_history_lock (persist_exchange sid (strip s) up full) st = Some (st', u)"
  shows "\<exists>t'. transcript st' sid = Some t'
     \<and> length t' = length t + (if strip s \<noteq> [] \<and> (\<forall>m\<in>set t. role m \<noteq> SYSTEM) then 3 else 2)
     \<and> (length t' = length t + 3 \<longrightarrow> s \<noteq> [] \<and> (\<forall>m\<in>set t. role m \<noteq> SYSTEM))
     \<and> ((\<exists>m\<in>set t. role m = SYSTEM) \<longrightarrow>
          length t' = length t + 2
          \<and> t' = (hd t)\<lparr>content := (if strip s = [] then content (hd t) else strip s)\<rparr> # tl t
                 @ [\<lparr>role = USER, content = up\<rparr>, \<lparr>role = ASSISTANT, content = full\<rparr>])"
proof -
  have inv: "store_inv st" using assms(1) by (rule reachable_inv)
  then have free: "\<not> history_lock st" and ok: "heap_ok st" and sf: "system_only_first t"
    using assms(2) by (auto simp: store_inv_def)
  from assms(2) obtain h where h: "session_histories st sid = Some h"
    "t = map (\<lambda>a. dicts st ! a) h" by (auto simp: transcript_Some)
  let ?sp = "strip s"
  let ?D1 = "if ?sp \<noteq> [] \<and> h \<noteq> [] \<and> role (dicts st ! hd h) = SYSTEM
             then (dicts st)[hd h := (dicts st ! hd h)\<lparr>content := ?sp\<rparr>] else dicts st"
  let ?pre = "if ?sp \<noteq> [] \<and> (h = [] \<or> role (dicts st ! hd h) \<noteq> SYSTEM)
              then [\<lparr>role = SYSTEM, content = ?sp\<rparr>] else []"
  let ?t' = "?pre @ map (\<lambda>b. ?D1 ! b) h
        @ [\<lparr>role = USER, content = up\<rparr>, \<lparr>role = ASSISTANT, content = full\<rparr>]"
  from persist_result[OF free ok h(1), of ?sp up full] assms(3)
  have t': "transcript st' sid = Some ?t'" by auto
  have nosys: "(h = [] \<or> role (dicts st ! hd h) \<noteq> SYSTEM) \<longleftrightarrow> (\<forall>m\<in>set t. role m \<noteq> SYSTEM)"
  proof (cases h)
    case Nil
    then show ?thesis using h(2) by simp
  next
    case (Cons a r)
    then have "\<forall>m\<in>set (map (\<lambda>a. dicts st ! a) r). role m \<noteq> SYSTEM"
      using sf h(2) by (simp add: system_only_first_def list_all_iff)
    then show ?thesis using Cons h(2) by auto
  qed
  have len: "length ?t' = length t + (if ?sp \<noteq> [] \<and> (\<forall>m\<in>set t. role m \<noteq> SYSTEM) then 3 else 2)"
    using nosys h(2) by simp
  have s0: "?sp \<noteq> [] \<Longrightarrow> s \<noteq> []" by (auto simp: strip_def)
  have three: "length ?t' = length t + 3 \<longrightarrow> s \<noteq> [] \<and> (\<forall>m\<in>set t. role m \<noteq> SYSTEM)"
    using len s0 by (auto split: if_splits)
  have inplace: "?t' = (hd t)\<lparr>content := (if ?sp = [] then content (hd t) else ?sp)\<rparr> # tl t
                 @ [\<lparr>role = USER, content = up\<rparr>, \<lparr>role = ASSISTANT, content = full\<rparr>]"
    if ex: "\<exists>m\<in>set t. role m = SYSTEM"
  proof -
    from ex nosys obtain a r where ar: "h = a # r" "role (dicts st ! a) = SYSTEM"
      by (cases h) auto
    have nr: "\<forall>b\<in>set r. role (dicts st ! b) \<noteq> SYSTEM"
      using sf h(2) ar(1) by (simp add: system_only_first_def list_all_iff)
    then have anr: "a \<notin> set r" using ar(2) by auto
    have al: "a < length (dicts st)" using ok h(1) ar(1) by (auto simp: heap_ok_def)
    have rest': "map (\<lambda>b. (dicts st)[a := x] ! b) r = map (\<lambda>b. dicts st ! b) r" for x
      using anr by (induction r) auto
    show ?thesis using ar al rest' h(2) by auto
  qed
  have two: "(\<exists>m\<in>set t. role m = SYSTEM) \<longrightarrow> length ?t' = length t + 2"
    using len by auto
  show ?thesis using t' len three two inplace by (intro exI[of _ ?t']) blast
qed

lemma fresh_session_reachable:
  "reachable (empty_store\<lparr>session_histories := [''s1'' \<mapsto> []]\<rparr>)"
proof -
  have "initialize_session_history empty_store ''s1''
      = Some (empty_store\<lparr>session_histories := [''s1'' \<mapsto> []]\<rparr>, ())"
    by (simp add: initialize_session_history_def with_history_lock_def empty_store_def)
  from r_initialize[OF r_empty this] show ?thesis .
qed

theorem commit_growth_witness:
  "reachable demo_store
   \<and> transcript demo_store ''s1'' =
       Some [\<lparr>role = SYSTEM, content = ''A''\<rparr>, \<lparr>role = USER, content = ''hi''\<rparr>,
             \<lparr>role = ASSISTANT, content = ''yo''\<rparr>]
   \<and> (\<exists>st' t'. with_history_lock (persist_exchange ''s1'' (strip ''B'') ''x'' ''ok'') demo_store
                 = Some (st', ())
         \<and> transcript st' ''s1'' = Some t' \<and> length t' = 5)
   \<and> reachable (empty_store\<lparr>session_histories := [''s1'' \<mapsto> []]\<rparr>)
   \<and> transcript (empty_store\<lparr>session_histories := [''s1'' \<mapsto> []]\<rparr>) ''s1'' = Some []
   \<and> (\<exists>st' t'. with_history_lock (persist_exchange ''s1'' (strip ''B'') ''x'' ''ok'')
                   (empty_store\<lparr>session_histories := [''s1'' \<mapsto> []]\<rparr>)
                 = Some (st', ())
         \<and> transcript st' ''s1'' = Some t' \<and> length t' = 3)"
proof -
  have sb: "strip ''B'' \<noteq> []" by (simp add: strip_def isspace_def)
  have f1: "\<not> history_lock demo_store" "session_histories demo_store ''s1'' = Some [0, 1, 2]"
    by (simp_all add: demo_store_def)
  from persist_total_known[OF f1, of "strip ''B''" "''x''" "''ok''"]
  obtain st1 where p1: "with_history_lock (persist_exchange ''s1'' (strip ''B'') ''x'' ''ok'') demo_store
       = Some (st1, ())" by blast
  from commit_growth[OF demo_store_reachable demo_transcript p1] sb
  have 1: "\<exists>t'. transcript st1 ''s1'' = Some t' \<and> length t' = 5" by auto
  let ?e = "empty_store\<lparr>session_histories := [''s1'' \<mapsto> []]\<rparr>"
  have te: "transcript ?e ''s1'' = Some []" by (simp add: transcript_def)
  have f2: "\<not> history_lock ?e" "session_histories ?e ''s1'' = Some []"
    by (simp_all add: empty_store_def)
  from persist_total_known[OF f2, of "strip ''B''" "''x''" "''ok''"]
  obtain st2 where p2: "with_history_lock (persist_exchange ''s1'' (strip ''B'') ''x'' ''ok'') ?e
       = Some (st2, ())" by blast
  from commit_growth[OF fresh_session_reachable te p2] sb
  have 2: "\<exists>t'. transcript st2 ''s1'' = Some t' \<and> length t' = 3" by auto
  show ?thesis using demo_store_reachable demo_transcript fresh_session_reachable te p1 1 p2 2
    by blast
qed

section \<open>Blank system prompts\<close>

text \<open>
  Claim C9. The system prompt is stripped before any use: a request with the prompt
  \<open>x\<close> has the outcome of the same request with \<open>strip x\<close>. Let the system prompt
  of a request on a reachable store be absent, empty or all whitespace. Then its
  stripped form is empty. The list of lines 92 to 118 is the stored history, message
  for message, followed by the user message: no system message is added. When the
  request reaches the collaborator, it is this list that the collaborator is called
  with: the events are the chunks and the last event that follow from the stream given
  for this list, and the history of the session afterwards is the history before,
  followed by the user message and the assistant message if the stream ended normally
  and by nothing if it raised. However the request ends, the history of the session
  afterwards is the history before it followed by messages that are not system
  messages: no system message is inserted or replaced.
\<close>

theorem blank_system_prompt_ignored:
  assumes "reachable st" "p_session_id p = Some sid" "sid \<noteq> []"
    "p_system_prompt p = None \<or> (\<exists>s. p_system_prompt p = Some (JStr s) \<and> list_all isspace s)"
  shows "system_prompt_text_of p = Inr []
     \<and> messages_for_llm (ensured st sid) sid [] up
         = map (\<lambda>d. ChatMessage (role d) (content d)) (history_of st sid) @ [ChatMessage USER up]
     \<and> (temperature_of p = Inr t \<and> p_prompt p = Some up \<and> up \<noteq> [] \<and> key = Some k \<and> k \<noteq> []
          \<and> LlamaGroq (model_id_of p) k = Inr llm
          \<and> llm (map (\<lambda>d. ChatMessage (role d) (content d)) (history_of st sid)
                   @ [ChatMessage USER up]) t = (deltas, raised)
        \<longrightarrow> (\<exists>st2. chat_route_post LlamaGroq key st p =
               Some (st2,
                     map (\<lambda>d. TextChunk d False) (emitted deltas)
                     @ [case raised of
                          None \<Rightarrow> FullResponse (concat (emitted deltas)) True
                        | Some e \<Rightarrow> ErrorEvent (''LLM Error: '' @ e) True],
                     Returned)
             \<and> history_of st2 sid
                 = history_of st sid
                   @ (case raised of
                        None \<Rightarrow> [\<lparr>role = USER, content = up\<rparr>,
                                  \<lparr>role = ASSISTANT, content = concat (emitted deltas)\<rparr>]
                      | Some e \<Rightarrow> [])))
     \<and> (chat_route_post LlamaGroq key st p = Some (st', evs, ending)
        \<longrightarrow> (\<exists>tail. history_of st' sid = history_of st sid @ tail
                    \<and> (\<forall>m\<in>set tail. role m \<noteq> SYSTEM)))
     \<and> chat_route_post LlamaGroq key st (p\<lparr>p_system_prompt := Some (JStr x)\<rparr>)
         = chat_route_post LlamaGroq key st (p\<lparr>p_system_prompt := Some (JStr (strip x))\<rparr>)"
proof -
  have inv: "store_inv st" using assms(1) by (rule reachable_inv)
  then have free: "\<not> history_lock st" by (simp add: store_inv_def)
  have inve: "store_inv (ensured st sid)" using inv by (rule inv_ensured)
  then have fe: "\<not> history_lock (ensured st sid)" and oke: "heap_ok (ensured st sid)"
    by (simp_all add: store_inv_def)
  have te: "transcript (ensured st sid) sid = Some (history_of st sid)"
    by (rule transcript_ensured)
  have sf: "system_only_first (history_of st sid)"
    using inve te by (auto simp: store_inv_def)
  have blank: "system_prompt_text_of p = Inr []"
    using assms(4) by (auto simp: py_strip_def strip_empty_iff)
  have he: "history_of (ensured st sid) sid = history_of st sid"
    by (rule history_of_ensured)
  have asm: "with_history_lock (assemble_messages sid []) (ensured st sid)
         = Some (ensured st sid, map (\<lambda>d. ChatMessage (role d) (content d)) (history_of st sid))"
    unfolding assemble_blank[OF fe] he
    using h2m_empty_start[of "history_of st sid"] sf by (simp add: system_only_first_def)
  have out: "messages_for_llm (ensured st sid) sid [] up
         = map (\<lambda>d. ChatMessage (role d) (content d)) (history_of st sid) @ [ChatMessage USER up]"
    for up
    using assemble_gives_messages[OF asm, of up] by simp
  have commit: "\<exists>st2. with_history_lock (persist_exchange sid [] up full) (ensured st sid) = Some (st2, ())
      \<and> history_of st2 sid = history_of st sid
           @ [\<lparr>role = USER, content = up\<rparr>, \<lparr>role = ASSISTANT, content = full\<rparr>]"
    for up full
    using persist_blank[OF fe oke te, of up full] by (auto simp: history_of_def)
  have call: "\<exists>st2. chat_route_post LlamaGroq key st p =
               Some (st2,
                     map (\<lambda>d. TextChunk d False) (emitted deltas)
                     @ [case raised of
                          None \<Rightarrow> FullResponse (concat (emitted deltas)) True
                        | Some e \<Rightarrow> ErrorEvent (''LLM Error: '' @ e) True],
                     Returned)
             \<and> history_of st2 sid
                 = history_of st sid
                   @ (case raised of
                        None \<Rightarrow> [\<lparr>role = USER, content = up\<rparr>,
                                  \<lparr>role = ASSISTANT, content = concat (emitted deltas)\<rparr>]
                      | Some e \<Rightarrow> [])"
    if h: "temperature_of p = Inr t" "p_prompt p = Some up" "up \<noteq> []" "key = Some k" "k \<noteq> []"
      "LlamaGroq (model_id_of p) k = Inr llm"
      "llm (map (\<lambda>d. ChatMessage (role d) (content d)) (history_of st sid)
                   @ [ChatMessage USER up]) t = (deltas, raised)"
  proof -
    note run = chat_run[where LlamaGroq = LlamaGroq and llm = llm,
        OF free assms(2,3) blank h(1) h(2,3) h(4,5) h(6) asm h(7)]
    show ?thesis
    proof (cases raised)
      case (Some e)
      then show ?thesis using run he by simp
    next
      case None
      from commit[of up "concat (emitted deltas)"] obtain st2 where
        "with_history_lock (persist_exchange sid [] up (concat (emitted deltas))) (ensured st sid)
           = Some (st2, ())"
        "history_of st2 sid = history_of st sid
           @ [\<lparr>role = USER, content = up\<rparr>, \<lparr>role = ASSISTANT, content = concat (emitted deltas)\<rparr>]"
        by blast
      then show ?thesis using run None by simp
    qed
  qed
  have any: "\<exists>tail. history_of st' sid = history_of st sid @ tail
                    \<and> (\<forall>m\<in>set tail. role m \<noteq> SYSTEM)"
    if r: "chat_route_post LlamaGroq key st p = Some (st', evs, ending)"
    using chat_cases[OF free assms(2,3) r]
  proof (elim disjE exE conjE)
    assume "st' = ensured st sid" "evs = []"
    then show ?thesis using he by simp
  next
    fix msg assume "st' = ensured st sid" "evs = [ErrorEvent msg True]"
    then show ?thesis using he by simp
  next
    fix sp t up k llm st1 msgs deltas raised
    assume c: "system_prompt_text_of p = Inr sp"
      "with_history_lock (assemble_messages sid sp) (ensured st sid) = Some (st1, msgs)"
      "case raised of
         None \<Rightarrow> with_history_lock (persist_exchange sid sp up (concat (emitted deltas))) st1
                    = Some (st', ())
                  \<and> evs = map (\<lambda>d. TextChunk d False) (emitted deltas)
                          @ [FullResponse (concat (emitted deltas)) True]
       | Some e \<Rightarrow> st' = st1
                  \<and> evs = map (\<lambda>d. TextChunk d False) (emitted deltas)
                          @ [ErrorEvent (''LLM Error: '' @ e) True]"
    have sp: "sp = []" using c(1) blank by simp
    have s1: "st1 = ensured st sid" using c(2) asm sp by simp
    show ?thesis
    proof (cases raised)
      case (Some e)
      then show ?thesis using c(3) s1 he by simp
    next
      case None
      from commit[of up "concat (emitted deltas)"] obtain st2 where
        "with_history_lock (persist_exchange sid [] up (concat (emitted deltas))) (ensured st sid)
           = Some (st2, ())"
        "history_of st2 sid = history_of st sid
           @ [\<lparr>role = USER, content = up\<rparr>, \<lparr>role = ASSISTANT, content = concat (emitted deltas)\<rparr>]"
        by blast
      then show ?thesis using None c(3) s1 sp by auto
    qed
  qed
  show ?thesis using blank out call any strip_once by blast
qed

theorem blank_system_prompt_ignored_witness:
  "reachable demo_store \<and> p_session_id (chat_request ''s1'' ''x'' ''  '') = Some ''s1''
   \<and> ''s1'' \<noteq> []
   \<and> p_system_prompt (chat_request ''s1'' ''x'' ''  '') = Some (JStr ''  '') \<and> list_all isspace ''  ''
   \<and> temperature_of (chat_request ''s1'' ''x'' ''  '') = Inr (Float (JReal (7 / 10)))
   \<and> messages_for_llm (ensured demo_store ''s1'') ''s1'' [] ''x''
       = [ChatMessage SYSTEM ''A'', ChatMessage USER ''hi'', ChatMessage ASSISTANT ''yo'',
          ChatMessage USER ''x'']
   \<and> (\<exists>st2. chat_route_post (stub_groq ([Some ''Hel'', Some '''', None, Some ''lo''], None)) (Some ''k'')
        demo_store (chat_request ''s1'' ''x'' ''  '')
        = Some (st2, [TextChunk ''Hel'' False, TextChunk ''lo'' False, FullResponse ''Hello'' True],
                Returned)
      \<and> history_of st2 ''s1''
        = [\<lparr>role = SYSTEM, content = ''A''\<rparr>, \<lparr>role = USER, content = ''hi''\<rparr>,
           \<lparr>role = ASSISTANT, content = ''yo''\<rparr>, \<lparr>role = USER, content = ''x''\<rparr>,
           \<lparr>role = ASSISTANT, content = ''Hello''\<rparr>])"
proof -
  have a: "p_session_id (chat_request ''s1'' ''x'' ''  '') = Some ''s1''" by (simp add: chat_request_def)
  have b: "''s1'' \<noteq> []" by simp
  have c: "p_system_prompt (chat_request ''s1'' ''x'' ''  '') = Some (JStr ''  '')"
    by (simp add: chat_request_def)
  have d: "list_all isspace ''  ''" by (simp add: isspace_def)
  have t: "temperature_of (chat_request ''s1'' ''x'' ''  '') = Inr (Float (JReal (7 / 10)))"
    by (simp add: chat_request_def py_float_def)
  have cd: "p_system_prompt (chat_request ''s1'' ''x'' ''  '') = None
      \<or> (\<exists>s. p_system_prompt (chat_request ''s1'' ''x'' ''  '') = Some (JStr s) \<and> list_all isspace s)"
    using c d by blast
  have h: "history_of demo_store ''s1'' =
      [\<lparr>role = SYSTEM, content = ''A''\<rparr>, \<lparr>role = USER, content = ''hi''\<rparr>,
       \<lparr>role = ASSISTANT, content = ''yo''\<rparr>]"
    by (simp add: history_of_def demo_transcript)
  note th = blank_system_prompt_ignored[OF demo_store_reachable a b cd,
      where up = "''x''" and t = "Float (JReal (7 / 10))" and key = "Some ''k''" and k = "''k''"
        and LlamaGroq = "stub_groq ([Some ''Hel'', Some '''', None, Some ''lo''], None)"
        and llm = "\<lambda>messages temperature. ([Some ''Hel'', Some '''', None, Some ''lo''], None)"
        and deltas = "[Some ''Hel'', Some '''', None, Some ''lo'']" and raised = None]
  have m: "messages_for_llm (ensured demo_store ''s1'') ''s1'' [] ''x''
       = [ChatMessage SYSTEM ''A'', ChatMessage USER ''hi'', ChatMessage ASSISTANT ''yo'',
          ChatMessage USER ''x'']"
    using th h by simp
  have r: "\<exists>st2. chat_route_post (stub_groq ([Some ''Hel'', Some '''', None, Some ''lo''], None)) (Some ''k'')
        demo_store (chat_request ''s1'' ''x'' ''  '')
        = Some (st2, [TextChunk ''Hel'' False, TextChunk ''lo'' False, FullResponse ''Hello'' True],
                Returned)
      \<and> history_of st2 ''s1''
        = [\<lparr>role = SYSTEM, content = ''A''\<rparr>, \<lparr>role = USER, content = ''hi''\<rparr>,
           \<lparr>role = ASSISTANT, content = ''yo''\<rparr>, \<lparr>role = USER, content = ''x''\<rparr>,
           \<lparr>role = ASSISTANT, content = ''Hello''\<rparr>]"
    using th h t by (simp add: chat_request_def stub_groq_def truthy_def)
  from demo_store_reachable a b c d t m r show ?thesis by blast
qed

end
